theory Spec2Isabelle
  imports Complex_Main
begin

section \<open>The data pipeline of \<^verbatim>\<open>src/data_pipeline.py\<close> and the helpers of \<^verbatim>\<open>src/reddit_data/utils.py\<close>\<close>

subsection \<open>Cells, frames and errors\<close>

text \<open>
  A pandas DataFrame is kept column-wise, as pandas keeps it: the length of its index and
  an ordered list of named columns. A cell is what \<^verbatim>\<open>read_csv\<close> yields for a field
  (a missing value, an integer, a string) or what the pipeline derives (a UTC timestamp,
  held as whole seconds since 1970-01-01T00:00:00Z). \<open>Null\<close> stands for NaN, None and
  SQL NULL alike. Fractional floating-point fields are outside the model.
\<close>

datatype cell = Null | Number int | Str string | Time int

record frame =
  nrows :: nat
  columns :: "(string \<times> cell list) list"

datatype error =
    FileNotFoundError
  | KeyError string
  | TypeError
  | ValueError
  | OutOfRange
  | AttributeError
  | MergeError
  | DatabaseError

type_synonym files = "string \<Rightarrow> frame option"

definition read_csv :: "files \<Rightarrow> string \<Rightarrow> error + frame" where
  "read_csv fs path = (case fs path of None \<Rightarrow> Inl FileNotFoundError | Some df \<Rightarrow> Inr df)"

definition names :: "frame \<Rightarrow> string list" where
  "names df = map fst (columns df)"

text \<open>\<^verbatim>\<open>df[name]\<close>: the column, or KeyError.\<close>

definition get_column :: "frame \<Rightarrow> string \<Rightarrow> error + cell list" where
  "get_column df name =
     (case map_of (columns df) name of None \<Rightarrow> Inl (KeyError name) | Some vs \<Rightarrow> Inr vs)"

text \<open>
  \<^verbatim>\<open>df[name] = values\<close>: an existing column of that name is overwritten where it
  stands, a new one is appended after the last column.
\<close>

definition set_column :: "frame \<Rightarrow> string \<Rightarrow> cell list \<Rightarrow> frame" where
  "set_column df name vs =
     (if name \<in> set (names df)
      then df\<lparr>columns := map (\<lambda>(n, old). if n = name then (n, vs) else (n, old)) (columns df)\<rparr>
      else df\<lparr>columns := columns df @ [(name, vs)]\<rparr>)"

text \<open>
  \<^verbatim>\<open>df.drop(columns=labels, errors=...)\<close>: with \<^verbatim>\<open>errors='raise'\<close> (the default of
  pandas) a label that names no column is a KeyError; with \<^verbatim>\<open>errors='ignore'\<close>, which
  both calls of the pipeline pass, such a label is skipped.
\<close>

datatype drop_errors = Raise | Ignore

definition drop_columns :: "drop_errors \<Rightarrow> string list \<Rightarrow> frame \<Rightarrow> error + frame" where
  "drop_columns errors labels df =
     (case filter (\<lambda>l. l \<notin> set (names df)) labels of
        l # _ \<Rightarrow>
          (if errors = Raise then Inl (KeyError l)
           else Inr (df\<lparr>columns := filter (\<lambda>(n, _). n \<notin> set labels) (columns df)\<rparr>))
      | [] \<Rightarrow> Inr (df\<lparr>columns := filter (\<lambda>(n, _). n \<notin> set labels) (columns df)\<rparr>))"

subsection \<open>The substitution of line 102: \<^verbatim>\<open>str.replace(r"t\\d+_", "", regex=True)\<close>\<close>

text \<open>
  The pattern is a raw string, so the regular expression holds two backslashes: it reads
  the letter t, one backslash character, one or more letters d, one underscore. The
  substitution deletes every leftmost non-overlapping match, anywhere in the string.
  \<open>match_at\<close> matches the pattern at the head of a string and returns what follows the
  match: \<open>d+\<close> is greedy, and giving a letter d back never helps, since an underscore
  must follow.
\<close>

definition backslash :: char where
  "backslash = CHR 0x5C"

fun match_at :: "string \<Rightarrow> string option" where
  "match_at (a # b # c # rest) =
     (if a = CHR ''t'' \<and> b = backslash \<and> c = CHR ''d''
      then (case dropWhile (\<lambda>x. x = CHR ''d'') rest of
              u # rest' \<Rightarrow> if u = CHR ''_'' then Some rest' else None
            | [] \<Rightarrow> None)
      else None)"
| "match_at _ = None"

lemma match_at_shorter: "match_at s = Some r \<Longrightarrow> length r < length s"
proof (cases s rule: match_at.cases)
  case (1 a b c rest)
  assume m: "match_at s = Some r"
  have "length (dropWhile (\<lambda>x. x = CHR ''d'') rest) \<le> length rest"
    by (rule length_dropWhile_le)
  with m 1 show ?thesis
    by (auto split: if_splits list.splits)
qed simp_all

function re_sub :: "string \<Rightarrow> string" where
  "re_sub [] = []"
| "re_sub (c # cs) =
     (case match_at (c # cs) of
        Some rest \<Rightarrow> re_sub rest
      | None \<Rightarrow> c # re_sub cs)"
  by pat_completeness auto
termination
  by (relation "measure length") (auto dest: match_at_shorter)

text \<open>
  On a column, \<^verbatim>\<open>.str.replace\<close> rewrites the strings and yields NaN for every cell
  that is not a string.
\<close>

fun str_replace :: "cell \<Rightarrow> cell" where
  "str_replace (Str s) = Str (re_sub s)"
| "str_replace _ = Null"

subsection \<open>Timestamps: \<^verbatim>\<open>datetime.fromtimestamp(x, tz=timezone.utc)\<close> and \<^verbatim>\<open>.dt.year\<close>\<close>

text \<open>
  The calendar is the proleptic Gregorian one. \<open>days_before_year y\<close> counts the days
  before 1 January of year \<open>y\<close>, day 1 being 0001-01-01; \<open>ord2year\<close> finds the year of
  such a day number through the cycles of 400, 100, 4 and 1 years, as the \<^verbatim>\<open>datetime\<close>
  module does. 1970-01-01 is day 719163.
\<close>

definition days_before_year :: "int \<Rightarrow> int" where
  "days_before_year year = (let y = year - 1 in y * 365 + y div 4 - y div 100 + y div 400)"

definition ord2year :: "int \<Rightarrow> int" where
  "ord2year ordinal =
     (let n = ordinal - 1;
          n400 = n div 146097; n = n mod 146097;
          n100 = n div 36524; n = n mod 36524;
          n4 = n div 1461; n = n mod 1461;
          n1 = n div 365;
          year = n400 * 400 + 1 + n100 * 100 + n4 * 4 + n1
      in if n1 = 4 \<or> n100 = 4 then year - 1 else year)"

definition utc_year :: "int \<Rightarrow> int" where
  "utc_year secs = ord2year (secs div 86400 + 719163)"

text \<open>The first second of a calendar year, in seconds since the epoch.\<close>

definition year_start :: "int \<Rightarrow> int" where
  "year_start y = (days_before_year y - 719162) * 86400"

text \<open>
  \<^verbatim>\<open>fromtimestamp\<close> takes a number: an integer gives the timestamp of that second, if
  its year lies in 1..9999 (ValueError, OverflowError or OSError otherwise, one
  \<open>OutOfRange\<close> here). NaN is a ValueError, a string a TypeError.
\<close>

fun fromtimestamp :: "cell \<Rightarrow> error + cell" where
  "fromtimestamp (Number x) =
     (if 1 \<le> utc_year x \<and> utc_year x \<le> 9999 then Inr (Time x) else Inl OutOfRange)"
| "fromtimestamp Null = Inl ValueError"
| "fromtimestamp (Str s) = Inl TypeError"
| "fromtimestamp (Time t) = Inl TypeError"

text \<open>\<^verbatim>\<open>Series.apply\<close>: row by row, from the first; the first exception ends it.\<close>

fun apply_col :: "(cell \<Rightarrow> error + cell) \<Rightarrow> cell list \<Rightarrow> error + cell list" where
  "apply_col f [] = Inr []"
| "apply_col f (v # vs) =
     (case f v of
        Inl e \<Rightarrow> Inl e
      | Inr w \<Rightarrow> (case apply_col f vs of Inl e \<Rightarrow> Inl e | Inr ws \<Rightarrow> Inr (w # ws)))"

text \<open>
  \<^verbatim>\<open>.dt\<close> exists on a datetime column only. pandas 2 stores the applied timestamps as
  64-bit nanoseconds when every one fits; it leaves an empty result, and one with a
  timestamp that does not fit, as they are, and \<^verbatim>\<open>.dt\<close> is then an AttributeError.
\<close>

fun ns_representable :: "cell \<Rightarrow> bool" where
  "ns_representable (Time t) = (- 9223372036 \<le> t \<and> t \<le> 9223372036)"
| "ns_representable _ = False"

fun year_cell :: "cell \<Rightarrow> cell" where
  "year_cell (Time t) = Number (utc_year t)"
| "year_cell _ = Null"

definition dt_year :: "cell list \<Rightarrow> error + cell list" where
  "dt_year vs =
     (if vs \<noteq> [] \<and> list_all ns_representable vs then Inr (map year_cell vs)
      else Inl AttributeError)"

subsection \<open>\<^verbatim>\<open>clean_comments\<close>\<close>

definition author_flair :: "string list" where
  "author_flair =
     [''author_flair_text'', ''author_flair_type'',
      ''author_flair_template_id'', ''author_flair_richtext'']"

text \<open>The two printed lines (earliest and latest time) change nothing and are left out.\<close>

definition clean_comments :: "files \<Rightarrow> string \<Rightarrow> error + frame" where
  "clean_comments fs comment_path =
     (case read_csv fs comment_path of
        Inl e \<Rightarrow> Inl e
      | Inr comments0 \<Rightarrow>
     (case drop_columns Ignore author_flair comments0 of
        Inl e \<Rightarrow> Inl e
      | Inr comments1 \<Rightarrow>
     (case get_column comments1 ''created_utc'' of
        Inl e \<Rightarrow> Inl e
      | Inr created_utc \<Rightarrow>
     (case apply_col fromtimestamp created_utc of
        Inl e \<Rightarrow> Inl e
      | Inr applied \<Rightarrow>
     (let comments2 = set_column comments1 ''created_time'' applied in
     (case get_column comments2 ''created_time'' of
        Inl e \<Rightarrow> Inl e
      | Inr created_time \<Rightarrow>
     (case dt_year created_time of
        Inl e \<Rightarrow> Inl e
      | Inr year \<Rightarrow> Inr (set_column comments2 ''year'' year))))))))"

subsection \<open>\<^verbatim>\<open>pd.merge(..., how="outer", left_on=..., right_on=..., indicator=True)\<close>\<close>

text \<open>
  The dtype of a column read from a CSV file follows from its fields: a column with a
  string field is an object column, of strings and NaN; a column of integers and
  missing fields is numeric; a column of no rows is an object column. \<^verbatim>\<open>.str\<close> exists
  on an object column only (AttributeError otherwise), and pandas refuses (ValueError)
  to merge a numeric key with a key of strings unless one of the two has no rows.
\<close>

fun is_str :: "cell \<Rightarrow> bool" where
  "is_str (Str s) = True"
| "is_str _ = False"

definition str_accessor_ok :: "cell list \<Rightarrow> bool" where
  "str_accessor_ok vs = (vs = [] \<or> list_ex is_str vs)"

definition merge_keys_ok :: "cell list \<Rightarrow> cell list \<Rightarrow> bool" where
  "merge_keys_ok lk rk = (lk = [] \<or> rk = [] \<or> list_ex is_str lk = list_ex is_str rk)"

text \<open>
  The join pairs row numbers: every left row with each right row of an equal key (two
  missing keys are equal to pandas), or with none; then every right row whose key no left
  row has. pandas orders the pairs by key, in a way that depends on its version; no
  statement below depends on the order.
\<close>

definition matching :: "cell list \<Rightarrow> cell \<Rightarrow> nat list" where
  "matching rk k = filter (\<lambda>j. rk ! j = k) [0..<length rk]"

definition left_pairs :: "cell list \<Rightarrow> cell list \<Rightarrow> nat \<Rightarrow> (nat option \<times> nat option) list" where
  "left_pairs lk rk i =
     (case matching rk (lk ! i) of
        [] \<Rightarrow> [(Some i, None)]
      | j # js \<Rightarrow> map (\<lambda>j'. (Some i, Some j')) (j # js))"

definition join_indexers :: "cell list \<Rightarrow> cell list \<Rightarrow> (nat option \<times> nat option) list" where
  "join_indexers lk rk =
     concat (map (left_pairs lk rk) [0..<length lk])
     @ map (\<lambda>j. (None, Some j)) (filter (\<lambda>j. rk ! j \<notin> set lk) [0..<length rk])"

fun take_left :: "cell list \<Rightarrow> nat option \<times> nat option \<Rightarrow> cell" where
  "take_left vs (Some i, _) = vs ! i"
| "take_left vs (None, _) = Null"

fun take_right :: "cell list \<Rightarrow> nat option \<times> nat option \<Rightarrow> cell" where
  "take_right vs (_, Some j) = vs ! j"
| "take_right vs (_, None) = Null"

fun indicator :: "nat option \<times> nat option \<Rightarrow> cell" where
  "indicator (Some i, Some j) = Str ''both''"
| "indicator (Some i, None) = Str ''left_only''"
| "indicator (None, Some j) = Str ''right_only''"
| "indicator (None, None) = Null"

text \<open>
  A column name that both frames have gets the suffix \<^verbatim>\<open>_x\<close> on the left and \<^verbatim>\<open>_y\<close> on
  the right; a suffix that makes two columns of one side share a name is a MergeError.
  With \<^verbatim>\<open>indicator=True\<close> neither frame may have a column named \<^verbatim>\<open>_merge\<close>,
  \<^verbatim>\<open>_left_indicator\<close> or \<^verbatim>\<open>_right_indicator\<close> (ValueError). The keys have different
  names here, so both key columns stay, each with NaN on the rows of the other side only.
\<close>

definition add_suffix :: "string list \<Rightarrow> string \<Rightarrow> string \<Rightarrow> string" where
  "add_suffix overlap sfx n = (if n \<in> set overlap then n @ sfx else n)"

definition indicator_names :: "string list" where
  "indicator_names = [''_merge'', ''_left_indicator'', ''_right_indicator'']"

definition merged_columns ::
  "frame \<Rightarrow> frame \<Rightarrow> (nat option \<times> nat option) list \<Rightarrow> (string \<times> cell list) list" where
  "merged_columns left right plan =
     (let overlap = filter (\<lambda>n. n \<in> set (names right)) (names left) in
      map (\<lambda>(n, vs). (add_suffix overlap ''_x'' n, map (take_left vs) plan)) (columns left)
      @ map (\<lambda>(n, vs). (add_suffix overlap ''_y'' n, map (take_right vs) plan)) (columns right)
      @ [(''_merge'', map indicator plan)])"

definition merge_outer :: "frame \<Rightarrow> frame \<Rightarrow> string \<Rightarrow> string \<Rightarrow> error + frame" where
  "merge_outer left right left_on right_on =
     (case get_column right right_on of
        Inl e \<Rightarrow> Inl e
      | Inr rk \<Rightarrow>
     (case get_column left left_on of
        Inl e \<Rightarrow> Inl e
      | Inr lk \<Rightarrow>
        if \<not> merge_keys_ok lk rk then Inl ValueError
        else if list_ex (\<lambda>n. n \<in> set indicator_names) (names left @ names right)
        then Inl ValueError
        else
          (let overlap = filter (\<lambda>n. n \<in> set (names right)) (names left) in
           if \<not> distinct (map (add_suffix overlap ''_x'') (names left))
              \<or> \<not> distinct (map (add_suffix overlap ''_y'') (names right))
           then Inl MergeError
           else
             (let plan = join_indexers lk rk in
              Inr \<lparr>nrows = length plan, columns = merged_columns left right plan\<rparr>))))"

subsection \<open>\<^verbatim>\<open>merge_submissions_comments\<close>\<close>

definition link_flair :: "string list" where
  "link_flair =
     [''link_flair_text'', ''link_flair_type'',
      ''link_flair_template_id'', ''link_flair_richtext'']"

text \<open>Lines 101 to 104: the column \<^verbatim>\<open>parent_clean_id\<close>.\<close>

definition normalize_parent_id :: "frame \<Rightarrow> error + frame" where
  "normalize_parent_id comments =
     (case get_column comments ''parent_id'' of
        Inl e \<Rightarrow> Inl e
      | Inr parent_id \<Rightarrow>
          if str_accessor_ok parent_id
          then Inr (set_column comments ''parent_clean_id'' (map str_replace parent_id))
          else Inl AttributeError)"

text \<open>
  The function returns the merged frame; the second component is what \<^verbatim>\<open>to_csv\<close> writes:
  the path and the frame, with no index column. The printed lines are left out.
\<close>

definition merge_submissions_comments ::
  "files \<Rightarrow> string \<Rightarrow> string \<Rightarrow> string \<Rightarrow> error + frame \<times> (string \<times> frame)" where
  "merge_submissions_comments fs sub_path comment_path output_path =
     (case read_csv fs sub_path of
        Inl e \<Rightarrow> Inl e
      | Inr submissions \<Rightarrow>
     (case clean_comments fs comment_path of
        Inl e \<Rightarrow> Inl e
      | Inr comments0 \<Rightarrow>
     (case normalize_parent_id comments0 of
        Inl e \<Rightarrow> Inl e
      | Inr comments \<Rightarrow>
     (case merge_outer submissions comments ''submission_id'' ''parent_clean_id'' of
        Inl e \<Rightarrow> Inl e
      | Inr merged0 \<Rightarrow>
     (case drop_columns Ignore link_flair merged0 of
        Inl e \<Rightarrow> Inl e
      | Inr merged \<Rightarrow> Inr (merged, (output_path, merged)))))))"

subsection \<open>\<^verbatim>\<open>load_to_sqlite\<close> and \<^verbatim>\<open>count_posts_comments\<close>\<close>

text \<open>
  A database is its tables by name; the database files are kept by path, and a
  connection is the path it was opened on. Connecting to a path that holds no database
  gives an empty one. \<^verbatim>\<open>to_sql\<close> has three ways to meet an existing table; the pipeline
  passes \<^verbatim>\<open>if_exists='replace'\<close>, and \<^verbatim>\<open>index=False\<close>, so no index column is written.
  The limits of SQLite itself (64-bit integers, column names equal up to case) are not
  modelled, nor is the state of the database file after a failed load.
\<close>

type_synonym database = "string \<Rightarrow> frame option"

type_synonym stores = "string \<Rightarrow> database option"

datatype if_exists = Fail | Replace | Append

definition append_rows :: "frame \<Rightarrow> frame \<Rightarrow> frame" where
  "append_rows old df =
     \<lparr>nrows = nrows old + nrows df,
      columns = map (\<lambda>(n, vs). (n, vs @ (case map_of (columns df) n of
                                            None \<Rightarrow> replicate (nrows df) Null
                                          | Some ws \<Rightarrow> ws))) (columns old)\<rparr>"

definition to_sql :: "frame \<Rightarrow> string \<Rightarrow> database \<Rightarrow> if_exists \<Rightarrow> error + database" where
  "to_sql df name db mode =
     (case db name of
        None \<Rightarrow> Inr (db(name \<mapsto> df))
      | Some old \<Rightarrow>
          (case mode of
             Fail \<Rightarrow> Inl ValueError
           | Replace \<Rightarrow> Inr (db(name \<mapsto> df))
           | Append \<Rightarrow>
               if list_all (\<lambda>n. n \<in> set (names old)) (names df)
               then Inr (db(name \<mapsto> append_rows old df))
               else Inl DatabaseError))"

definition connect :: "stores \<Rightarrow> string \<Rightarrow> database" where
  "connect st db_path = (case st db_path of None \<Rightarrow> Map.empty | Some db \<Rightarrow> db)"

definition load_to_sqlite :: "files \<Rightarrow> string \<Rightarrow> stores \<Rightarrow> string \<Rightarrow> error + stores \<times> string" where
  "load_to_sqlite fs comment_path st db_path =
     (let db = connect st db_path in
      case read_csv fs comment_path of
        Inl e \<Rightarrow> Inl e
      | Inr df \<Rightarrow>
     (case to_sql df ''comment_table'' db Replace of
        Inl e \<Rightarrow> Inl e
      | Inr db' \<Rightarrow> Inr (st(db_path \<mapsto> db'), db_path)))"

text \<open>
  \<^verbatim>\<open>SELECT COUNT(DISTINCT column) FROM table\<close>: the number of different values that are
  not NULL; a table or a column that does not exist is an error of the database.
\<close>

definition count_distinct :: "database \<Rightarrow> string \<Rightarrow> string \<Rightarrow> error + int" where
  "count_distinct db column tbl =
     (case db tbl of
        None \<Rightarrow> Inl DatabaseError
      | Some t \<Rightarrow>
          (case map_of (columns t) column of
             None \<Rightarrow> Inl DatabaseError
           | Some vs \<Rightarrow> Inr (int (length (remdups (filter (\<lambda>v. v \<noteq> Null) vs))))))"

definition count_posts_comments :: "stores \<Rightarrow> string \<Rightarrow> error + int \<times> int" where
  "count_posts_comments st conn =
     (case count_distinct (connect st conn) ''parent_id'' ''comment_table'' of
        Inl e \<Rightarrow> Inl e
      | Inr post_number \<Rightarrow>
     (case count_distinct (connect st conn) ''comment_id'' ''comment_table'' of
        Inl e \<Rightarrow> Inl e
      | Inr comment_number \<Rightarrow> Inr (post_number, comment_number)))"

subsection \<open>\<^verbatim>\<open>reddit_data/utils.py\<close>\<close>

text \<open>
  A number is a Python int or a Python float (a bool counts as the int 0 or 1). A float is
  an IEEE-754 double: a finite one is written by its exact value (\<open>Finite 0\<close> is
  \<^verbatim>\<open>0.0\<close>), and \<^verbatim>\<open>-0.0\<close>, the two infinities and NaN stand by themselves.
\<close>

datatype pyfloat = Finite rat | NegZero | PosInf | NegInf | NaN

datatype pynum = PyInt int | PyFloat pyfloat

datatype arith_error = OverflowError | ZeroDivisionError

text \<open>
  Rounding to a double: to the nearest multiple of the unit in the last place, a tie to
  the even multiple. The unit is \<open>2 ^ (e - 52)\<close> for a value in \<open>[2 ^ e, 2 ^ (e + 1))\<close>
  and never less than \<open>2 ^ (- 1074)\<close>; a result of \<open>2 ^ 1024\<close> or more is an infinity, a
  result of zero keeps the sign. \<open>bits n\<close> is the number of binary digits of \<open>n\<close>.
\<close>

function bits :: "int \<Rightarrow> int" where
  "bits n = (if n \<le> 0 then 0 else 1 + bits (n div 2))"
  by pat_completeness auto
termination
  by (relation "measure nat") auto

declare bits.simps [simp del]

definition pow2 :: "int \<Rightarrow> rat" where
  "pow2 e = (if 0 \<le> e then 2 ^ nat e else 1 / 2 ^ nat (- e))"

definition floor_log2 :: "rat \<Rightarrow> int" where
  "floor_log2 a = (if 1 \<le> a then bits \<lfloor>a\<rfloor> - 1 else - bits (\<lceil>1 / a\<rceil> - 1))"

definition round_half_even :: "rat \<Rightarrow> int" where
  "round_half_even x =
     (let f = \<lfloor>x\<rfloor>; d = x - of_int f in
      if d < 1 / 2 then f else if 1 / 2 < d then f + 1 else if even f then f else f + 1)"

definition overflow_bound :: rat where
  "overflow_bound = 2 ^ 1024"

definition round_double :: "rat \<Rightarrow> pyfloat" where
  "round_double q =
     (if q = 0 then Finite 0
      else
        (let a = \<bar>q\<bar>;
             p = max (floor_log2 a - 52) (- 1074);
             v = of_int (round_half_even (a / pow2 p)) * pow2 p
         in if overflow_bound \<le> v then (if 0 < q then PosInf else NegInf)
            else if v = 0 then (if 0 < q then Finite 0 else NegZero)
            else Finite (if 0 < q then v else - v)))"

text \<open>\<^verbatim>\<open>float(n)\<close>, as every mixed operation converts an int: too large an int is an OverflowError.\<close>

definition int_to_float :: "int \<Rightarrow> arith_error + pyfloat" where
  "int_to_float n =
     (case round_double (of_int n) of
        PosInf \<Rightarrow> Inl OverflowError
      | NegInf \<Rightarrow> Inl OverflowError
      | f \<Rightarrow> Inr f)"

text \<open>Addition and division of floats; dividing by zero is a ZeroDivisionError in Python.\<close>

fun float_add :: "pyfloat \<Rightarrow> pyfloat \<Rightarrow> pyfloat" where
  "float_add NaN y = NaN"
| "float_add x NaN = NaN"
| "float_add PosInf NegInf = NaN"
| "float_add NegInf PosInf = NaN"
| "float_add PosInf y = PosInf"
| "float_add x PosInf = PosInf"
| "float_add NegInf y = NegInf"
| "float_add x NegInf = NegInf"
| "float_add NegZero y = y"
| "float_add x NegZero = x"
| "float_add (Finite a) (Finite b) = round_double (a + b)"

fun negative :: "pyfloat \<Rightarrow> bool" where
  "negative (Finite q) = (q < 0)"
| "negative NegZero = True"
| "negative NegInf = True"
| "negative _ = False"

fun infinite_float :: "pyfloat \<Rightarrow> bool" where
  "infinite_float PosInf = True"
| "infinite_float NegInf = True"
| "infinite_float _ = False"

fun float_truediv :: "pyfloat \<Rightarrow> pyfloat \<Rightarrow> arith_error + pyfloat" where
  "float_truediv x (Finite d) =
     (if d = 0 then Inl ZeroDivisionError
      else (case x of
              Finite q \<Rightarrow>
                Inr (if q = 0 then (if d < 0 then NegZero else Finite 0) else round_double (q / d))
            | NegZero \<Rightarrow> Inr (if d < 0 then Finite 0 else NegZero)
            | PosInf \<Rightarrow> Inr (if d < 0 then NegInf else PosInf)
            | NegInf \<Rightarrow> Inr (if d < 0 then PosInf else NegInf)
            | NaN \<Rightarrow> Inr NaN))"
| "float_truediv x NegZero = Inl ZeroDivisionError"
| "float_truediv x NaN = Inr NaN"
| "float_truediv x y =
     (if x = NaN \<or> infinite_float x then Inr NaN
      else Inr (if negative x = negative y then Finite 0 else NegZero))"

text \<open>
  \<^verbatim>\<open>sum(numbers)\<close> adds from the int 0, left to right: ints exactly, and a float with
  anything as floats. (So Python does up to 3.11; from 3.12 \<^verbatim>\<open>sum\<close> also carries a
  correction for the rounding of floats. A list of ints adds the same in both.)
  \<^verbatim>\<open>x / len(numbers)\<close> divides an int by the length as the nearest float to the exact
  quotient, OverflowError when that is too large, and a float by the length as floats.
\<close>

fun py_add :: "pynum \<Rightarrow> pynum \<Rightarrow> arith_error + pynum" where
  "py_add (PyInt a) (PyInt b) = Inr (PyInt (a + b))"
| "py_add (PyInt a) (PyFloat y) =
     (case int_to_float a of Inl e \<Rightarrow> Inl e | Inr x \<Rightarrow> Inr (PyFloat (float_add x y)))"
| "py_add (PyFloat x) (PyInt b) =
     (case int_to_float b of Inl e \<Rightarrow> Inl e | Inr y \<Rightarrow> Inr (PyFloat (float_add x y)))"
| "py_add (PyFloat x) (PyFloat y) = Inr (PyFloat (float_add x y))"

fun py_sum :: "pynum list \<Rightarrow> pynum \<Rightarrow> arith_error + pynum" where
  "py_sum [] start = Inr start"
| "py_sum (x # xs) start =
     (case py_add start x of Inl e \<Rightarrow> Inl e | Inr acc \<Rightarrow> py_sum xs acc)"

fun py_truediv :: "pynum \<Rightarrow> nat \<Rightarrow> arith_error + pynum" where
  "py_truediv (PyInt a) n =
     (if n = 0 then Inl ZeroDivisionError
      else (case round_double (of_int a / of_nat n) of
              PosInf \<Rightarrow> Inl OverflowError
            | NegInf \<Rightarrow> Inl OverflowError
            | f \<Rightarrow> Inr (PyFloat f)))"
| "py_truediv (PyFloat x) n =
     (case int_to_float (int n) of
        Inl e \<Rightarrow> Inl e
      | Inr y \<Rightarrow> (case float_truediv x y of Inl e \<Rightarrow> Inl e | Inr f \<Rightarrow> Inr (PyFloat f)))"

definition calculate_average :: "pynum list \<Rightarrow> arith_error + pynum" where
  "calculate_average numbers =
     (if numbers = [] then Inr (PyInt 0)
      else (case py_sum numbers (PyInt 0) of
              Inl e \<Rightarrow> Inl e
            | Inr summed \<Rightarrow> py_truediv summed (length numbers)))"

text \<open>
  \<^verbatim>\<open>{amount:.2f}\<close> converts an int to a float and writes a finite float rounded to
  hundredths, a tie to the even neighbour, with its sign; \<^verbatim>\<open>-0.0\<close>, the infinities and
  NaN are written as Python writes them. The euro and pound signs are their UTF-8 bytes.
\<close>

definition digit_char :: "nat \<Rightarrow> char" where
  "digit_char d = ''0123456789'' ! d"

fun decimal :: "nat \<Rightarrow> string" where
  "decimal n = (if n < 10 then [digit_char n] else decimal (n div 10) @ [digit_char (n mod 10)])"

definition format_2f :: "rat \<Rightarrow> string" where
  "format_2f amount =
     (let cents = nat (round_half_even (\<bar>amount\<bar> * 100)) in
      (if amount < 0 then ''-'' else [])
      @ decimal (cents div 100) @ ''.''
      @ [digit_char (cents mod 100 div 10), digit_char (cents mod 10)])"

fun format_float :: "pyfloat \<Rightarrow> string" where
  "format_float (Finite q) = format_2f q"
| "format_float NegZero = ''-0.00''"
| "format_float PosInf = ''inf''"
| "format_float NegInf = ''-inf''"
| "format_float NaN = ''nan''"

fun to_float :: "pynum \<Rightarrow> arith_error + pyfloat" where
  "to_float (PyInt n) = int_to_float n"
| "to_float (PyFloat x) = Inr x"

definition symbols :: "(string \<times> string) list" where
  "symbols =
     [(''USD'', ''$''),
      (''EUR'', [CHR 0xE2, CHR 0x82, CHR 0xAC]),
      (''GBP'', [CHR 0xC2, CHR 0xA3])]"

definition format_currency :: "pynum \<Rightarrow> string \<Rightarrow> arith_error + string" where
  "format_currency amount currency =
     (let symbol = (case map_of symbols currency of None \<Rightarrow> ''$'' | Some s \<Rightarrow> s) in
      case to_float amount of
        Inl e \<Rightarrow> Inl e
      | Inr x \<Rightarrow> Inr (symbol @ format_float x))"

subsection \<open>Rows\<close>

text \<open>
  Row \<open>k\<close> of a frame, as its named cells; a side of a joined row, which is a row of
  that side or, where the pair has none, its columns with NaN; and the joined row of a
  pair of row numbers: the left side, the right side and the indicator, with the suffixes
  of the merge.
\<close>

definition row :: "frame \<Rightarrow> nat \<Rightarrow> (string \<times> cell) list" where
  "row df k = map (\<lambda>(n, vs). (n, vs ! k)) (columns df)"

fun side_row :: "frame \<Rightarrow> nat option \<Rightarrow> (string \<times> cell) list" where
  "side_row df (Some i) = row df i"
| "side_row df None = map (\<lambda>(n, vs). (n, Null)) (columns df)"

definition joined_row :: "frame \<Rightarrow> frame \<Rightarrow> nat option \<times> nat option \<Rightarrow> (string \<times> cell) list" where
  "joined_row left right p =
     (let overlap = filter (\<lambda>n. n \<in> set (names right)) (names left) in
      map (\<lambda>(n, v). (add_suffix overlap ''_x'' n, v)) (side_row left (fst p))
      @ map (\<lambda>(n, v). (add_suffix overlap ''_y'' n, v)) (side_row right (snd p))
      @ [(''_merge'', indicator p)])"

subsection \<open>Example inputs\<close>

definition example_comments :: frame where
  "example_comments =
     \<lparr>nrows = 2,
      columns =
        [(''comment_id'', [Str ''c1'', Str ''c2'']),
         (''parent_id'', [Str ''t3_s1'', Str ''t1_c1'']),
         (''author_flair_text'', [Null, Str ''mod'']),
         (''created_utc'', [Number 1700000000, Number 1600000000])]\<rparr>"

definition example_submissions :: frame where
  "example_submissions =
     \<lparr>nrows = 2,
      columns =
        [(''submission_id'', [Str ''s1'', Str ''s2'']),
         (''title'', [Str ''A'', Str ''B'']),
         (''link_flair_text'', [Null, Str ''Poll''])]\<rparr>"

definition example_files :: files where
  "example_files =
     [''comments.csv'' \<mapsto> example_comments, ''submissions.csv'' \<mapsto> example_submissions]"

definition example_cleaned :: frame where
  "example_cleaned =
     \<lparr>nrows = 2,
      columns =
        [(''comment_id'', [Str ''c1'', Str ''c2'']),
         (''parent_id'', [Str ''t3_s1'', Str ''t1_c1'']),
         (''created_utc'', [Number 1700000000, Number 1600000000]),
         (''created_time'', [Time 1700000000, Time 1600000000]),
         (''year'', [Number 2023, Number 2020])]\<rparr>"

definition unparsable_comments :: frame where
  "unparsable_comments =
     \<lparr>nrows = 3,
      columns =
        [(''comment_id'', [Str ''c1'', Str ''c2'', Str ''c3'']),
         (''created_utc'', [Number 1700000000, Str ''yesterday'', Null])]\<rparr>"

definition undated_comments :: frame where
  "undated_comments = \<lparr>nrows = 1, columns = [(''comment_id'', [Str ''c1''])]\<rparr>"

definition unparsable_files :: files where
  "unparsable_files =
     [''comments.csv'' \<mapsto> unparsable_comments, ''undated.csv'' \<mapsto> undated_comments]"

definition dated_comments :: frame where
  "dated_comments =
     \<lparr>nrows = 1,
      columns = [(''created_utc'', [Number 1700000000]), (''year'', [Number 1999])]\<rparr>"

definition dated_files :: files where
  "dated_files = [''comments.csv'' \<mapsto> dated_comments]"

definition dated_cleaned :: frame where
  "dated_cleaned =
     \<lparr>nrows = 1,
      columns = [(''created_utc'', [Number 1700000000]), (''year'', [Number 2023]),
                 (''created_time'', [Time 1700000000])]\<rparr>"

definition scenario_submissions :: frame where
  "scenario_submissions =
     \<lparr>nrows = 1, columns = [(''submission_id'', [Str ''s1'']), (''title'', [Str ''A''])]\<rparr>"

definition scenario_comments :: frame where
  "scenario_comments =
     \<lparr>nrows = 1,
      columns =
        [(''comment_id'', [Str ''c1'']),
         (''parent_id'', [Str ''t3_s1'']),
         (''created_utc'', [Number 1700000000])]\<rparr>"

definition scenario_files :: files where
  "scenario_files =
     [''submissions.csv'' \<mapsto> scenario_submissions, ''comments.csv'' \<mapsto> scenario_comments]"

definition scenario_merged :: frame where
  "scenario_merged =
     \<lparr>nrows = 2,
      columns =
        [(''submission_id'', [Str ''s1'', Null]),
         (''title'', [Str ''A'', Null]),
         (''comment_id'', [Null, Str ''c1'']),
         (''parent_id'', [Null, Str ''t3_s1'']),
         (''created_utc'', [Null, Number 1700000000]),
         (''created_time'', [Null, Time 1700000000]),
         (''year'', [Null, Number 2023]),
         (''parent_clean_id'', [Null, Str ''t3_s1'']),
         (''_merge'', [Str ''left_only'', Str ''right_only''])]\<rparr>"

definition old_store :: stores where
  "old_store =
     [''project_test.db'' \<mapsto>
        [''comment_table'' \<mapsto>
           \<lparr>nrows = 1, columns = [(''comment_id'', [Str ''old'']), (''score'', [Number 7])]\<rparr>,
         ''other_table'' \<mapsto> \<lparr>nrows = 0, columns = [(''k'', [])]\<rparr>]]"

definition repeated_comments :: frame where
  "repeated_comments =
     \<lparr>nrows = 4,
      columns =
        [(''comment_id'', [Str ''c1'', Str ''c2'', Str ''c3'', Null]),
         (''parent_id'', [Str ''t3_s1'', Str ''t3_s1'', Null, Str ''t1_c1''])]\<rparr>"

definition repeated_files :: files where
  "repeated_files = [''comments.csv'' \<mapsto> repeated_comments]"

definition thread_submissions :: frame where
  "thread_submissions =
     \<lparr>nrows = 2,
      columns =
        [(''submission_id'', [Str ''s1'', Str ''s2'']),
         (''title'', [Str ''A'', Str ''B'']),
         (''link_flair_text'', [Null, Str ''Poll''])]\<rparr>"

definition thread_comments :: frame where
  "thread_comments =
     \<lparr>nrows = 3,
      columns =
        [(''comment_id'', [Str ''c1'', Str ''c2'', Str ''c3'']),
         (''parent_id'', [Str ''s1'', Str ''t3_s2'', Str ''s1'']),
         (''created_utc'', [Number 1700000000, Number 1700000001, Number 1700000002])]\<rparr>"

definition thread_files :: files where
  "thread_files =
     [''submissions.csv'' \<mapsto> thread_submissions, ''comments.csv'' \<mapsto> thread_comments]"

definition thread_cleaned :: frame where
  "thread_cleaned =
     \<lparr>nrows = 3,
      columns =
        [(''comment_id'', [Str ''c1'', Str ''c2'', Str ''c3'']),
         (''parent_id'', [Str ''s1'', Str ''t3_s2'', Str ''s1'']),
         (''created_utc'', [Number 1700000000, Number 1700000001, Number 1700000002]),
         (''created_time'', [Time 1700000000, Time 1700000001, Time 1700000002]),
         (''year'', [Number 2023, Number 2023, Number 2023])]\<rparr>"

definition thread_normalized :: frame where
  "thread_normalized =
     \<lparr>nrows = 3,
      columns =
        [(''comment_id'', [Str ''c1'', Str ''c2'', Str ''c3'']),
         (''parent_id'', [Str ''s1'', Str ''t3_s2'', Str ''s1'']),
         (''created_utc'', [Number 1700000000, Number 1700000001, Number 1700000002]),
         (''created_time'', [Time 1700000000, Time 1700000001, Time 1700000002]),
         (''year'', [Number 2023, Number 2023, Number 2023]),
         (''parent_clean_id'', [Str ''s1'', Str ''t3_s2'', Str ''s1''])]\<rparr>"

definition thread_merged :: frame where
  "thread_merged =
     \<lparr>nrows = 4,
      columns =
        [(''submission_id'', [Str ''s1'', Str ''s1'', Str ''s2'', Null]),
         (''title'', [Str ''A'', Str ''A'', Str ''B'', Null]),
         (''comment_id'', [Str ''c1'', Str ''c3'', Null, Str ''c2'']),
         (''parent_id'', [Str ''s1'', Str ''s1'', Null, Str ''t3_s2'']),
         (''created_utc'', [Number 1700000000, Number 1700000002, Null, Number 1700000001]),
         (''created_time'', [Time 1700000000, Time 1700000002, Null, Time 1700000001]),
         (''year'', [Number 2023, Number 2023, Null, Number 2023]),
         (''parent_clean_id'', [Str ''s1'', Str ''s1'', Null, Str ''t3_s2'']),
         (''_merge'', [Str ''both'', Str ''both'', Str ''left_only'', Str ''right_only''])]\<rparr>"

section \<open>Properties\<close>

subsection \<open>Columns\<close>

lemma drop_ignore:
  "drop_columns Ignore labels df =
     Inr (df\<lparr>columns := filter (\<lambda>(n, _). n \<notin> set labels) (columns df)\<rparr>)"
  by (simp add: drop_columns_def split: list.splits)

lemma map_of_filter_names:
  "n \<notin> set labels \<Longrightarrow> map_of (filter (\<lambda>(n, _). n \<notin> set labels) cols) n = map_of cols n"
  by (induction cols) auto

lemma get_column_dropped:
  "n \<notin> set labels \<Longrightarrow>
   get_column (df\<lparr>columns := filter (\<lambda>(n, _). n \<notin> set labels) (columns df)\<rparr>) n = get_column df n"
  by (simp add: get_column_def map_of_filter_names)

lemma names_filter:
  "map fst (filter (\<lambda>(n, _). P n) cols) = filter P (map fst cols)"
  by (induction cols) auto

lemma filter_filter_same:
  "filter (\<lambda>(n, _). P n) (filter (\<lambda>(n, _). P n) cols) = filter (\<lambda>(n, _). P n) cols"
  by (induction cols) auto

lemma drop_ignore_idem:
  "\<exists>once. drop_columns Ignore labels df = Inr once
         \<and> drop_columns Ignore labels once = Inr once
         \<and> names once = filter (\<lambda>n. n \<notin> set labels) (names df)"
  by (simp add: drop_ignore names_def names_filter filter_filter_same)

lemma map_of_overwrite:
  "map_of (map (\<lambda>(m, old). if m = n then (m, vs) else (m, old)) cols) k =
     (if k = n then (if n \<in> fst ` set cols then Some vs else None) else map_of cols k)"
  by (induction cols) (auto simp: rev_image_eqI)

lemma map_of_None_names: "map_of (columns df) n = None \<longleftrightarrow> n \<notin> set (names df)"
  by (simp add: names_def map_of_eq_None_iff)

lemma get_set_same: "get_column (set_column df n vs) n = Inr vs"
proof (cases "n \<in> set (names df)")
  case True
  then show ?thesis
    by (simp add: get_column_def set_column_def map_of_overwrite names_def)
next
  case False
  then have "map_of (columns df) n = None" by (simp add: map_of_None_names)
  with False show ?thesis
    by (simp add: get_column_def set_column_def map_add_def flip: map_add_def[of "map_of [(n, vs)]"])
qed

lemma get_set_other: "m \<noteq> n \<Longrightarrow> get_column (set_column df n vs) m = get_column df m"
  by (auto simp: get_column_def set_column_def names_def map_of_overwrite map_of_append
      split: option.splits)

lemma get_column_Inr_iff: "(\<exists>vs. get_column df n = Inr vs) \<longleftrightarrow> n \<in> set (names df)"
  using map_of_None_names[of df n] by (cases "map_of (columns df) n") (auto simp: get_column_def)

lemma get_column_missing: "n \<notin> set (names df) \<Longrightarrow> get_column df n = Inl (KeyError n)"
  using map_of_None_names[of df n] by (simp add: get_column_def)

lemma filter_set_column:
  "\<not> Q a \<Longrightarrow> filter (\<lambda>(n, _). Q n) (columns (set_column df a vs)) = filter (\<lambda>(n, _). Q n) (columns df)"
proof -
  assume q: "\<not> Q a"
  have "filter (\<lambda>(n, _). Q n) (map (\<lambda>(n, old). if n = a then (n, vs) else (n, old)) cols)
        = filter (\<lambda>(n, _). Q n) cols" for cols
    using q by (induction cols) (auto split: if_splits)
  with q show ?thesis by (simp add: set_column_def)
qed

lemma nrows_set_column: "nrows (set_column df a vs) = nrows df"
  by (simp add: set_column_def)

lemma names_set_column_other:
  "n \<in> set (names (set_column df a vs)) \<longleftrightarrow> n = a \<or> n \<in> set (names df)"
  using get_column_Inr_iff[of "set_column df a vs" n] get_column_Inr_iff[of df n]
  by (cases "n = a") (simp_all add: get_set_same get_set_other)

lemma apply_col_nth:
  "apply_col f vs = Inr ws \<Longrightarrow> length ws = length vs \<and> (\<forall>i<length vs. f (vs ! i) = Inr (ws ! i))"
proof (induction vs arbitrary: ws)
  case Nil
  then show ?case by simp
next
  case (Cons v vs)
  then show ?case
    by (auto split: sum.splits simp: nth_Cons split: nat.splits)
qed

lemma apply_col_first_error:
  "i < length vs \<Longrightarrow> \<forall>j<i. \<exists>w. f (vs ! j) = Inr w \<Longrightarrow> f (vs ! i) = Inl e \<Longrightarrow> apply_col f vs = Inl e"
proof (induction vs arbitrary: i)
  case Nil
  then show ?case by simp
next
  case (Cons v vs)
  show ?case
  proof (cases i)
    case 0
    with Cons.prems show ?thesis by simp
  next
    case (Suc k)
    with Cons.prems have "\<exists>w. f v = Inr w" by auto
    moreover from Suc Cons.prems have "apply_col f vs = Inl e"
      by (intro Cons.IH[of k]) auto
    ultimately show ?thesis by auto
  qed
qed

lemma apply_col_some_error:
  "i < length vs \<Longrightarrow> f (vs ! i) = Inl e \<Longrightarrow> \<exists>e'. apply_col f vs = Inl e'"
proof (induction vs arbitrary: i)
  case Nil
  then show ?case by simp
next
  case (Cons v vs)
  then show ?case
    by (cases i) (auto split: sum.splits)
qed

subsection \<open>The parent identifier\<close>

text \<open>A string without a backslash has no match: the substitution returns it as it is.\<close>

lemma re_sub_no_backslash: "backslash \<notin> set s \<Longrightarrow> re_sub s = s"
proof (induction s rule: re_sub.induct)
  case 1
  then show ?case by simp
next
  case (2 c cs)
  have "match_at (c # cs) = None"
  proof (cases cs)
    case Nil
    then show ?thesis by simp
  next
    case (Cons b cs')
    with 2(3) show ?thesis by (cases cs') auto
  qed
  with 2 show ?case by simp
qed

text \<open>
  What the pattern does remove is the letter t, a backslash, letters d and an
  underscore, wherever they stand.
\<close>

lemma re_sub_removes_literal:
  "re_sub (''t'' @ [backslash] @ ''d_abc123'') = ''abc123''
   \<and> re_sub (''x_t'' @ [backslash] @ ''ddd_y'') = ''x_y''"
  by (simp add: backslash_def)

text \<open>
  Claim C1, evaluated on the code: the two documented examples come back with their
  prefix, where the claim and the comment of line 101 want it removed.
\<close>

theorem normalize_keeps_prefix:
  "re_sub ''t1_abc123'' = ''t1_abc123'' \<and> re_sub ''t3_xyz'' = ''t3_xyz''"
  by (simp add: backslash_def)

subsection \<open>The end-to-end scenario\<close>

text \<open>
  Claim C2, evaluated on the code: in the end-to-end scenario the key \<^verbatim>\<open>s1\<close> of the
  submission meets the \<^verbatim>\<open>parent_clean_id\<close> \<^verbatim>\<open>t3_s1\<close>, which kept its prefix, so the join
  gives two rows, one \<^verbatim>\<open>left_only\<close> and one \<^verbatim>\<open>right_only\<close>, and none marked \<^verbatim>\<open>both\<close>.
\<close>

theorem scenario_rows_do_not_match:
  "merge_submissions_comments scenario_files ''submissions.csv'' ''comments.csv'' ''joined_data.csv''
     = Inr (scenario_merged, (''joined_data.csv'', scenario_merged))
   \<and> get_column scenario_merged ''_merge'' = Inr [Str ''left_only'', Str ''right_only'']"
  by code_simp

subsection \<open>The outer join\<close>

lemma set_matching: "set (matching rk k) = {j. j < length rk \<and> rk ! j = k}"
  by (auto simp: matching_def)

lemma distinct_matching: "distinct (matching rk k)"
  by (simp add: matching_def)

lemma set_left_pairs:
  "set (left_pairs lk rk i) =
     {(Some i, Some j) | j. j < length rk \<and> rk ! j = lk ! i}
     \<union> (if lk ! i \<in> set rk then {} else {(Some i, None)})"
proof (cases "matching rk (lk ! i)")
  case Nil
  then have "{j. j < length rk \<and> rk ! j = lk ! i} = {}"
    using set_matching[of rk "lk ! i"] by simp
  then have "lk ! i \<notin> set rk" "\<And>j. j < length rk \<Longrightarrow> rk ! j \<noteq> lk ! i"
    by (auto simp: in_set_conv_nth)
  with Nil show ?thesis by (auto simp: left_pairs_def)
next
  case (Cons j js)
  then have "j \<in> set (matching rk (lk ! i))" by simp
  then have "j \<in> {j. j < length rk \<and> rk ! j = lk ! i}"
    by (simp only: set_matching)
  then have "lk ! i \<in> set rk" by (auto simp: in_set_conv_nth)
  moreover have "set (left_pairs lk rk i) = (\<lambda>j'. (Some i, Some j')) ` set (matching rk (lk ! i))"
    using Cons by (simp add: left_pairs_def)
  ultimately show ?thesis by (auto simp: set_matching)
qed

lemma distinct_left_pairs: "distinct (left_pairs lk rk i)"
proof (cases "matching rk (lk ! i)")
  case Nil
  then show ?thesis by (simp add: left_pairs_def)
next
  case (Cons j js)
  have "distinct (map (\<lambda>j'. (Some i, Some j')) (matching rk (lk ! i)))"
    by (simp add: distinct_map distinct_matching inj_on_def)
  with Cons show ?thesis by (simp add: left_pairs_def)
qed

lemma fst_left_pairs: "p \<in> set (left_pairs lk rk i) \<Longrightarrow> fst p = Some i"
  by (auto simp: set_left_pairs split: if_splits)

lemma distinct_concat_left_pairs:
  "distinct is \<Longrightarrow> distinct (concat (map (left_pairs lk rk) is))"
proof (induction "is")
  case Nil
  then show ?case by simp
next
  case (Cons i "is")
  have "set (left_pairs lk rk i) \<inter> set (concat (map (left_pairs lk rk) is)) = {}"
  proof (rule ccontr)
    assume "\<not> ?thesis"
    then obtain p i' where "p \<in> set (left_pairs lk rk i)" "i' \<in> set is" "p \<in> set (left_pairs lk rk i')"
      by auto
    then have "i = i'" by (auto dest!: fst_left_pairs)
    with \<open>i' \<in> set is\<close> Cons.prems show False by simp
  qed
  with Cons show ?case by (simp add: distinct_left_pairs)
qed

lemma distinct_join_indexers: "distinct (join_indexers lk rk)"
proof -
  have "distinct (map (\<lambda>j. (None :: nat option, Some j)) (filter (\<lambda>j. rk ! j \<notin> set lk) [0..<length rk]))"
    by (simp add: distinct_map inj_on_def)
  moreover have "set (concat (map (left_pairs lk rk) [0..<length lk]))
       \<inter> set (map (\<lambda>j. (None, Some j)) (filter (\<lambda>j. rk ! j \<notin> set lk) [0..<length rk])) = {}"
    by (auto dest!: fst_left_pairs)
  ultimately show ?thesis
    by (simp add: join_indexers_def distinct_concat_left_pairs)
qed

lemma set_join_indexers:
  "set (join_indexers lk rk) =
     {(Some i, Some j) | i j. i < length lk \<and> j < length rk \<and> lk ! i = rk ! j}
     \<union> {(Some i, None) | i. i < length lk \<and> lk ! i \<notin> set rk}
     \<union> {(None, Some j) | j. j < length rk \<and> rk ! j \<notin> set lk}"
  by (auto simp: join_indexers_def set_left_pairs split: if_splits)

lemma join_indexers_covers_left:
  assumes "i < length lk"
  shows "\<exists>k<length (join_indexers lk rk). fst (join_indexers lk rk ! k) = Some i"
proof -
  have "\<exists>p \<in> set (join_indexers lk rk). fst p = Some i"
  proof (cases "lk ! i \<in> set rk")
    case True
    then obtain j where "j < length rk" "rk ! j = lk ! i" by (auto simp: in_set_conv_nth)
    with assms have "(Some i, Some j) \<in> set (join_indexers lk rk)"
      by (auto simp: set_join_indexers)
    then show ?thesis by force
  next
    case False
    with assms have "(Some i, None) \<in> set (join_indexers lk rk)"
      by (auto simp: set_join_indexers)
    then show ?thesis by force
  qed
  then show ?thesis by (metis in_set_conv_nth)
qed

lemma join_indexers_covers_right:
  assumes "j < length rk"
  shows "\<exists>k<length (join_indexers lk rk). snd (join_indexers lk rk ! k) = Some j"
proof -
  have "\<exists>p \<in> set (join_indexers lk rk). snd p = Some j"
  proof (cases "rk ! j \<in> set lk")
    case True
    then obtain i where "i < length lk" "lk ! i = rk ! j" by (auto simp: in_set_conv_nth)
    with assms have "(Some i, Some j) \<in> set (join_indexers lk rk)"
      by (auto simp: set_join_indexers)
    then show ?thesis by force
  next
    case False
    with assms have "(None, Some j) \<in> set (join_indexers lk rk)"
      by (auto simp: set_join_indexers)
    then show ?thesis by force
  qed
  then show ?thesis by (metis in_set_conv_nth)
qed

lemma join_indexers_pair_once:
  assumes "i < length lk" "j < length rk" "lk ! i = rk ! j"
  shows "\<exists>!k. k < length (join_indexers lk rk) \<and> join_indexers lk rk ! k = (Some i, Some j)"
proof -
  from assms have "(Some i, Some j) \<in> set (join_indexers lk rk)"
    by (auto simp: set_join_indexers)
  with distinct_join_indexers[of lk rk] show ?thesis
    by (rule distinct_Ex1)
qed

lemma join_indexers_sound:
  assumes "k < length (join_indexers lk rk)"
  shows "(\<forall>i j. join_indexers lk rk ! k = (Some i, Some j) \<longrightarrow>
            i < length lk \<and> j < length rk \<and> lk ! i = rk ! j)
       \<and> (\<forall>i. join_indexers lk rk ! k = (Some i, None) \<longrightarrow> i < length lk \<and> lk ! i \<notin> set rk)
       \<and> (\<forall>j. join_indexers lk rk ! k = (None, Some j) \<longrightarrow> j < length rk \<and> rk ! j \<notin> set lk)
       \<and> join_indexers lk rk ! k \<noteq> (None, None)"
proof -
  from assms have "join_indexers lk rk ! k \<in> set (join_indexers lk rk)" by simp
  then show ?thesis unfolding set_join_indexers by auto
qed

lemma left_part:
  "k < length plan \<Longrightarrow>
   map (\<lambda>(n, vs). (n, vs ! k)) (map (\<lambda>(n, vs). (f n, map (take_left vs) plan)) (columns df))
     = map (\<lambda>(n, v). (f n, v)) (side_row df (fst (plan ! k)))"
  by (cases "plan ! k"; cases "fst (plan ! k)") (auto simp: row_def)

lemma right_part:
  "k < length plan \<Longrightarrow>
   map (\<lambda>(n, vs). (n, vs ! k)) (map (\<lambda>(n, vs). (f n, map (take_right vs) plan)) (columns df))
     = map (\<lambda>(n, v). (f n, v)) (side_row df (snd (plan ! k)))"
  by (cases "plan ! k"; cases "snd (plan ! k)") (auto simp: row_def)

lemma row_merged_columns:
  assumes "k < length plan"
  shows "map (\<lambda>(n, vs). (n, vs ! k)) (merged_columns left right plan) = joined_row left right (plan ! k)"
  unfolding merged_columns_def joined_row_def Let_def map_append
  using assms by (simp add: left_part right_part del: map_map)

lemma row_filter:
  "row (df\<lparr>columns := filter (\<lambda>(n, _). P n) (columns df)\<rparr>) k = filter (\<lambda>(n, _). P n) (row df k)"
proof -
  have "map (\<lambda>(n, vs). (n, vs ! k)) (filter (\<lambda>(n, _). P n) cols)
        = filter (\<lambda>(n, _). P n) (map (\<lambda>(n, vs). (n, vs ! k)) cols)" for cols :: "(string \<times> cell list) list"
    by (induction cols) auto
  then show ?thesis by (simp add: row_def)
qed

lemma merge_submissions_comments_Inr:
  assumes "merge_submissions_comments fs sub_path comment_path output_path = Inr (merged, written)"
    and "read_csv fs sub_path = Inr submissions"
    and "clean_comments fs comment_path = Inr cleaned"
    and "normalize_parent_id cleaned = Inr comments"
    and "get_column submissions ''submission_id'' = Inr lk"
    and "get_column comments ''parent_clean_id'' = Inr rk"
  shows "merged = \<lparr>nrows = length (join_indexers lk rk),
                   columns = filter (\<lambda>(n, _). n \<notin> set link_flair)
                               (merged_columns submissions comments (join_indexers lk rk))\<rparr>"
  using assms
  by (simp add: merge_submissions_comments_def merge_outer_def drop_ignore Let_def
      split: if_splits)

text \<open>
  Claim C3. The rows of the merged frame are given by a list of pairs of row numbers,
  one pair per row: row \<open>k\<close> is the submission row and the comment row of pair \<open>k\<close> side
  by side (NaN for a side the pair lacks), with the indicator \<^verbatim>\<open>_merge\<close> of the pair,
  less the link flair columns. Every submission row and every row of the cleaned and
  normalized comments is in some pair; every pair of rows with
  \<^verbatim>\<open>submission_id\<close> equal to \<^verbatim>\<open>parent_clean_id\<close> is the pair of exactly one row; and a row
  combines two rows only when their keys are equal, and stands alone only when no row of
  the other side has its key.
\<close>

theorem outer_join_complete:
  assumes "merge_submissions_comments fs sub_path comment_path output_path = Inr (merged, written)"
    and "read_csv fs sub_path = Inr submissions"
    and "clean_comments fs comment_path = Inr cleaned"
    and "normalize_parent_id cleaned = Inr comments"
    and "get_column submissions ''submission_id'' = Inr submission_id"
    and "get_column comments ''parent_clean_id'' = Inr parent_clean_id"
    and "length submission_id = nrows submissions"
    and "length parent_clean_id = nrows comments"
  shows "\<exists>plan. length plan = nrows merged
     \<and> (\<forall>k<nrows merged.
           row merged k
             = filter (\<lambda>(n, _). n \<notin> set link_flair) (joined_row submissions comments (plan ! k)))
     \<and> (\<forall>i<nrows submissions. \<exists>k<nrows merged. fst (plan ! k) = Some i)
     \<and> (\<forall>j<nrows comments. \<exists>k<nrows merged. snd (plan ! k) = Some j)
     \<and> (\<forall>i<nrows submissions. \<forall>j<nrows comments.
           submission_id ! i = parent_clean_id ! j
           \<longrightarrow> (\<exists>!k. k < nrows merged \<and> plan ! k = (Some i, Some j)))
     \<and> (\<forall>k<nrows merged.
           (\<forall>i j. plan ! k = (Some i, Some j) \<longrightarrow>
              i < nrows submissions \<and> j < nrows comments
              \<and> submission_id ! i = parent_clean_id ! j)
         \<and> (\<forall>i. plan ! k = (Some i, None) \<longrightarrow>
              i < nrows submissions \<and> submission_id ! i \<notin> set parent_clean_id)
         \<and> (\<forall>j. plan ! k = (None, Some j) \<longrightarrow>
              j < nrows comments \<and> parent_clean_id ! j \<notin> set submission_id)
         \<and> plan ! k \<noteq> (None, None))"
proof -
  let ?plan = "join_indexers submission_id parent_clean_id"
  have m: "merged = \<lparr>nrows = length ?plan,
                   columns = filter (\<lambda>(n, _). n \<notin> set link_flair)
                               (merged_columns submissions comments ?plan)\<rparr>"
    using assms(1-6) by (rule merge_submissions_comments_Inr)
  then have n: "nrows merged = length ?plan" by simp
  have rows: "row merged k
        = filter (\<lambda>(n, _). n \<notin> set link_flair) (joined_row submissions comments (?plan ! k))"
    if "k < nrows merged" for k
  proof -
    have "row merged k = filter (\<lambda>(n, _). n \<notin> set link_flair)
            (map (\<lambda>(n, vs). (n, vs ! k)) (merged_columns submissions comments ?plan))"
      using row_filter[where df = "\<lparr>nrows = length ?plan, columns = merged_columns submissions comments ?plan\<rparr>"
          and P = "\<lambda>n. n \<notin> set link_flair" and k = k]
      by (simp add: m row_def)
    with that n show ?thesis by (simp add: row_merged_columns)
  qed
  show ?thesis
  proof (intro exI[of _ ?plan] conjI allI impI)
    show "length ?plan = nrows merged" by (simp add: n)
  next
    fix k assume "k < nrows merged"
    then show "row merged k
        = filter (\<lambda>(n, _). n \<notin> set link_flair) (joined_row submissions comments (?plan ! k))"
      by (rule rows)
  next
    fix i assume "i < nrows submissions"
    then show "\<exists>k<nrows merged. fst (?plan ! k) = Some i"
      using join_indexers_covers_left[of i submission_id parent_clean_id] assms(7) n by simp
  next
    fix j assume "j < nrows comments"
    then show "\<exists>k<nrows merged. snd (?plan ! k) = Some j"
      using join_indexers_covers_right[of j parent_clean_id submission_id] assms(8) n by simp
  next
    fix i j
    assume "i < nrows submissions" "j < nrows comments" "submission_id ! i = parent_clean_id ! j"
    then show "\<exists>!k. k < nrows merged \<and> ?plan ! k = (Some i, Some j)"
      using join_indexers_pair_once[of i submission_id j parent_clean_id] assms(7,8) n by simp
  next
    fix k i j
    assume "k < nrows merged" "?plan ! k = (Some i, Some j)"
    then show "i < nrows submissions" "j < nrows comments" "submission_id ! i = parent_clean_id ! j"
      using join_indexers_sound[of k submission_id parent_clean_id] assms(7,8) n by simp_all
  next
    fix k i
    assume "k < nrows merged" "?plan ! k = (Some i, None)"
    then show "i < nrows submissions" "submission_id ! i \<notin> set parent_clean_id"
      using join_indexers_sound[of k submission_id parent_clean_id] assms(7,8) n by simp_all
  next
    fix k j
    assume "k < nrows merged" "?plan ! k = (None, Some j)"
    then show "j < nrows comments" "parent_clean_id ! j \<notin> set submission_id"
      using join_indexers_sound[of k submission_id parent_clean_id] assms(7,8) n by simp_all
  next
    fix k
    assume "k < nrows merged"
    then show "?plan ! k \<noteq> (None, None)"
      using join_indexers_sound[of k submission_id parent_clean_id] n by simp
  qed
qed

lemma thread_merge:
  "merge_submissions_comments thread_files ''submissions.csv'' ''comments.csv'' ''joined_data.csv''
     = Inr (thread_merged, (''joined_data.csv'', thread_merged))"
  by code_simp

lemma thread_steps:
  "read_csv thread_files ''submissions.csv'' = Inr thread_submissions"
  "clean_comments thread_files ''comments.csv'' = Inr thread_cleaned"
  "normalize_parent_id thread_cleaned = Inr thread_normalized"
  "get_column thread_submissions ''submission_id'' = Inr [Str ''s1'', Str ''s2'']"
  "get_column thread_normalized ''parent_clean_id'' = Inr [Str ''s1'', Str ''t3_s2'', Str ''s1'']"
  by code_simp+

theorem outer_join_complete_witness:
  "merge_submissions_comments thread_files ''submissions.csv'' ''comments.csv'' ''joined_data.csv''
     = Inr (thread_merged, (''joined_data.csv'', thread_merged))
   \<and> read_csv thread_files ''submissions.csv'' = Inr thread_submissions
   \<and> clean_comments thread_files ''comments.csv'' = Inr thread_cleaned
   \<and> normalize_parent_id thread_cleaned = Inr thread_normalized
   \<and> get_column thread_submissions ''submission_id'' = Inr [Str ''s1'', Str ''s2'']
   \<and> get_column thread_normalized ''parent_clean_id'' = Inr [Str ''s1'', Str ''t3_s2'', Str ''s1'']
   \<and> nrows thread_submissions = 2 \<and> nrows thread_normalized = 3 \<and> nrows thread_merged = 4
   \<and> (\<exists>plan :: (nat option \<times> nat option) list. length plan = 4
         \<and> (\<exists>!k. k < 4 \<and> plan ! k = (Some 0, Some 2))
         \<and> (\<exists>k<4. fst (plan ! k) = Some 1)
         \<and> (\<exists>k<4. snd (plan ! k) = Some 1))"
proof -
  have n: "nrows thread_submissions = 2" "nrows thread_normalized = 3" "nrows thread_merged = 4"
    by (simp_all add: thread_submissions_def thread_normalized_def thread_merged_def)
  have l: "length [Str ''s1'', Str ''s2''] = nrows thread_submissions"
    "length [Str ''s1'', Str ''t3_s2'', Str ''s1''] = nrows thread_normalized"
    by (simp_all add: n)
  from outer_join_complete[OF thread_merge thread_steps l]
  obtain plan where p: "length plan = nrows thread_merged"
    "\<forall>i<nrows thread_submissions. \<exists>k<nrows thread_merged. fst (plan ! k) = Some i"
    "\<forall>j<nrows thread_normalized. \<exists>k<nrows thread_merged. snd (plan ! k) = Some j"
    "\<forall>i<nrows thread_submissions. \<forall>j<nrows thread_normalized.
           [Str ''s1'', Str ''s2''] ! i = [Str ''s1'', Str ''t3_s2'', Str ''s1''] ! j
           \<longrightarrow> (\<exists>!k. k < nrows thread_merged \<and> plan ! k = (Some i, Some j))"
    by blast
  from p(4) have "\<exists>!k. k < 4 \<and> plan ! k = (Some 0, Some 2)"
    unfolding n by (elim allE[of _ 0] allE[of _ 2]) simp
  moreover from p(2) have "\<exists>k<4. fst (plan ! k) = Some 1"
    unfolding n by (elim allE[of _ 1]) simp
  moreover from p(3) have "\<exists>k<4. snd (plan ! k) = Some 1"
    unfolding n by (elim allE[of _ 1]) simp
  moreover from p(1) have "length plan = 4" by (simp add: n)
  ultimately have "\<exists>plan :: (nat option \<times> nat option) list. length plan = 4
         \<and> (\<exists>!k. k < 4 \<and> plan ! k = (Some 0, Some 2))
         \<and> (\<exists>k<4. fst (plan ! k) = Some 1)
         \<and> (\<exists>k<4. snd (plan ! k) = Some 1)"
    by blast
  with thread_merge thread_steps n show ?thesis by simp
qed

subsection \<open>Cleaning\<close>

lemma clean_comments_Inr:
  assumes "clean_comments fs p = Inr cleaned"
  obtains comments utc ct where
    "read_csv fs p = Inr comments"
    "get_column comments ''created_utc'' = Inr utc"
    "apply_col fromtimestamp utc = Inr ct"
    "ct \<noteq> []" "list_all ns_representable ct"
    "cleaned = set_column (set_column
        (comments\<lparr>columns := filter (\<lambda>(n, _). n \<notin> set author_flair) (columns comments)\<rparr>)
        ''created_time'' ct) ''year'' (map year_cell ct)"
proof -
  have nf: "''created_utc'' \<notin> set author_flair" by (simp add: author_flair_def)
  from assms show ?thesis
    unfolding clean_comments_def drop_ignore Let_def
    by (auto split: sum.splits if_splits simp: get_set_same dt_year_def get_column_dropped[OF nf]
        intro: that)
qed

lemma year_of_1700000000: "utc_year 1700000000 = 2023"
  by (simp add: utc_year_def ord2year_def Let_def)

lemma in_2023: "year_start 2023 \<le> 1700000000 \<and> 1700000000 < year_start 2024"
  by (simp add: year_start_def days_before_year_def Let_def)

lemma read_example_comments: "read_csv example_files ''comments.csv'' = Inr example_comments"
  by (simp add: read_csv_def example_files_def)

lemma clean_example: "clean_comments example_files ''comments.csv'' = Inr example_cleaned"
  by code_simp

text \<open>
  Claim C4. A row whose \<^verbatim>\<open>created_utc\<close> is the integer 1700000000 gets, in the cleaned
  frame, a \<^verbatim>\<open>created_time\<close> that lies between the first second of 2023 and the first
  second of 2024 (UTC), and the \<^verbatim>\<open>year\<close> 2023.
\<close>

theorem created_utc_1700000000_year_2023:
  assumes "clean_comments fs comment_path = Inr cleaned"
    and "read_csv fs comment_path = Inr comments"
    and "get_column comments ''created_utc'' = Inr created_utc"
    and "i < length created_utc"
    and "created_utc ! i = Number 1700000000"
  shows "\<exists>created_time year t.
           get_column cleaned ''created_time'' = Inr created_time
         \<and> get_column cleaned ''year'' = Inr year
         \<and> i < length created_time \<and> i < length year
         \<and> created_time ! i = Time t
         \<and> year_start 2023 \<le> t \<and> t < year_start 2024
         \<and> utc_year t = 2023
         \<and> year ! i = Number 2023"
proof -
  from assms(1) obtain comments' utc ct where c:
    "read_csv fs comment_path = Inr comments'"
    "get_column comments' ''created_utc'' = Inr utc"
    "apply_col fromtimestamp utc = Inr ct"
    "cleaned = set_column (set_column
        (comments'\<lparr>columns := filter (\<lambda>(n, _). n \<notin> set author_flair) (columns comments')\<rparr>)
        ''created_time'' ct) ''year'' (map year_cell ct)"
    by (rule clean_comments_Inr)
  from c(1,2) assms(2,3) have utc: "utc = created_utc" by simp
  from apply_col_nth[OF c(3)] utc assms(4)
  have len: "length ct = length created_utc"
    and app: "fromtimestamp (created_utc ! i) = Inr (ct ! i)" by auto
  from app assms(5) have cti: "ct ! i = Time 1700000000"
    by (simp add: year_of_1700000000)
  have "get_column cleaned ''created_time'' = Inr ct"
    by (simp add: c(4) get_set_other get_set_same)
  moreover have "get_column cleaned ''year'' = Inr (map year_cell ct)"
    by (simp add: c(4) get_set_same)
  moreover have "map year_cell ct ! i = Number 2023"
    using assms(4) len cti by (simp add: year_of_1700000000)
  ultimately show ?thesis
    using cti len assms(4) in_2023 year_of_1700000000 by auto
qed

theorem created_utc_1700000000_year_2023_witness:
  "clean_comments example_files ''comments.csv'' = Inr example_cleaned
   \<and> read_csv example_files ''comments.csv'' = Inr example_comments
   \<and> get_column example_comments ''created_utc'' = Inr [Number 1700000000, Number 1600000000]
   \<and> (\<exists>created_time year t.
           get_column example_cleaned ''created_time'' = Inr created_time
         \<and> get_column example_cleaned ''year'' = Inr year
         \<and> 0 < length created_time \<and> 0 < length year
         \<and> created_time ! 0 = Time t
         \<and> year_start 2023 \<le> t \<and> t < year_start 2024
         \<and> utc_year t = 2023
         \<and> year ! 0 = Number 2023)"
proof -
  have g: "get_column example_comments ''created_utc'' = Inr [Number 1700000000, Number 1600000000]"
    by (simp add: get_column_def example_comments_def)
  from created_utc_1700000000_year_2023[OF clean_example read_example_comments g, of 0]
  show ?thesis using clean_example read_example_comments g by simp
qed

text \<open>
  Claim C5. When the column \<^verbatim>\<open>created_utc\<close> is missing, \<^verbatim>\<open>clean_comments\<close> fails with
  the KeyError; when a row's value is no number (a missing value or a string), it fails
  as a whole and returns no frame; the error is the one of the first row whose value
  \<^verbatim>\<open>fromtimestamp\<close> refuses.
\<close>

theorem clean_fails_on_bad_created_utc:
  assumes "read_csv fs comment_path = Inr comments"
  shows "(''created_utc'' \<notin> set (names comments) \<longrightarrow>
            clean_comments fs comment_path = Inl (KeyError ''created_utc''))
       \<and> (\<forall>created_utc i e.
             get_column comments ''created_utc'' = Inr created_utc \<and> i < length created_utc
             \<and> (\<forall>j<i. \<exists>w. fromtimestamp (created_utc ! j) = Inr w)
             \<and> fromtimestamp (created_utc ! i) = Inl e
             \<longrightarrow> clean_comments fs comment_path = Inl e)
       \<and> (\<forall>created_utc i.
             get_column comments ''created_utc'' = Inr created_utc \<and> i < length created_utc
             \<and> (created_utc ! i = Null \<or> is_str (created_utc ! i))
             \<longrightarrow> (\<exists>e. clean_comments fs comment_path = Inl e))"
proof (intro conjI allI impI)
  have nf: "''created_utc'' \<notin> set author_flair" by (simp add: author_flair_def)
  let ?d = "comments\<lparr>columns := filter (\<lambda>(n, _). n \<notin> set author_flair) (columns comments)\<rparr>"
  have g: "get_column ?d ''created_utc'' = get_column comments ''created_utc''"
    by (rule get_column_dropped[OF nf])
  {
    assume "''created_utc'' \<notin> set (names comments)"
    then have "get_column comments ''created_utc'' = Inl (KeyError ''created_utc'')"
      by (rule get_column_missing)
    with assms g show "clean_comments fs comment_path = Inl (KeyError ''created_utc'')"
      by (simp add: clean_comments_def drop_ignore)
  }
  {
    fix created_utc i e
    assume a: "get_column comments ''created_utc'' = Inr created_utc \<and> i < length created_utc
             \<and> (\<forall>j<i. \<exists>w. fromtimestamp (created_utc ! j) = Inr w)
             \<and> fromtimestamp (created_utc ! i) = Inl e"
    then have "apply_col fromtimestamp created_utc = Inl e"
      by (intro apply_col_first_error[of i]) auto
    with assms g a show "clean_comments fs comment_path = Inl e"
      by (simp add: clean_comments_def drop_ignore)
  }
  {
    fix created_utc i
    assume a: "get_column comments ''created_utc'' = Inr created_utc \<and> i < length created_utc
             \<and> (created_utc ! i = Null \<or> is_str (created_utc ! i))"
    then have "\<exists>e. fromtimestamp (created_utc ! i) = Inl e"
      by (cases "created_utc ! i") auto
    with a obtain e' where "apply_col fromtimestamp created_utc = Inl e'"
      using apply_col_some_error[of i created_utc fromtimestamp] by blast
    with assms g a show "\<exists>e. clean_comments fs comment_path = Inl e"
      by (simp add: clean_comments_def drop_ignore)
  }
qed

theorem clean_fails_on_bad_created_utc_witness:
  "read_csv unparsable_files ''undated.csv'' = Inr undated_comments
   \<and> ''created_utc'' \<notin> set (names undated_comments)
   \<and> clean_comments unparsable_files ''undated.csv'' = Inl (KeyError ''created_utc'')
   \<and> read_csv unparsable_files ''comments.csv'' = Inr unparsable_comments
   \<and> get_column unparsable_comments ''created_utc''
       = Inr [Number 1700000000, Str ''yesterday'', Null]
   \<and> fromtimestamp (Number 1700000000) = Inr (Time 1700000000)
   \<and> fromtimestamp (Str ''yesterday'') = Inl TypeError
   \<and> clean_comments unparsable_files ''comments.csv'' = Inl TypeError"
proof -
  have r1: "read_csv unparsable_files ''undated.csv'' = Inr undated_comments"
    by (simp add: read_csv_def unparsable_files_def)
  have r2: "read_csv unparsable_files ''comments.csv'' = Inr unparsable_comments"
    by (simp add: read_csv_def unparsable_files_def)
  have n: "''created_utc'' \<notin> set (names undated_comments)"
    by (simp add: names_def undated_comments_def)
  have g: "get_column unparsable_comments ''created_utc''
       = Inr [Number 1700000000, Str ''yesterday'', Null]"
    by (simp add: get_column_def unparsable_comments_def)
  have f: "fromtimestamp (Number 1700000000) = Inr (Time 1700000000)"
    by (simp add: year_of_1700000000)
  from clean_fails_on_bad_created_utc[OF r1] n
  have c1: "clean_comments unparsable_files ''undated.csv'' = Inl (KeyError ''created_utc'')"
    by blast
  have c2: "clean_comments unparsable_files ''comments.csv'' = Inl TypeError"
    using clean_fails_on_bad_created_utc[OF r2, THEN conjunct2, THEN conjunct1, rule_format,
        of "[Number 1700000000, Str ''yesterday'', Null]" "Suc 0" TypeError] g
    by (simp add: year_of_1700000000)
  from r1 r2 n g f c1 c2 show ?thesis by simp
qed

text \<open>
  Claim C9, as amended. When \<^verbatim>\<open>clean_comments\<close> returns a frame, it has as many rows as
  the input; its columns other than \<^verbatim>\<open>created_time\<close> and \<^verbatim>\<open>year\<close> are the input's columns
  other than the four author flair columns and other than \<^verbatim>\<open>created_time\<close> and \<^verbatim>\<open>year\<close>,
  in the same order and with the same values; no author flair column is a column of it.
  Its column \<^verbatim>\<open>created_time\<close> holds the derived values, \<^verbatim>\<open>fromtimestamp\<close> of the input's
  \<^verbatim>\<open>created_utc\<close> row by row, and its column \<^verbatim>\<open>year\<close> the calendar year of each of them,
  whether or not the input had a column of either name; both are as long as
  \<^verbatim>\<open>created_utc\<close>, which is the number of rows when that column is as long as the frame.
\<close>

theorem clean_preserves_other_columns:
  assumes "clean_comments fs comment_path = Inr cleaned"
    and "read_csv fs comment_path = Inr comments"
  shows "nrows cleaned = nrows comments
       \<and> filter (\<lambda>(n, _). n \<noteq> ''created_time'' \<and> n \<noteq> ''year'') (columns cleaned)
           = filter (\<lambda>(n, _). n \<notin> set author_flair \<and> n \<noteq> ''created_time'' \<and> n \<noteq> ''year'')
               (columns comments)
       \<and> ''created_time'' \<in> set (names cleaned) \<and> ''year'' \<in> set (names cleaned)
       \<and> list_all (\<lambda>n. n \<notin> set (names cleaned)) author_flair
       \<and> (\<exists>created_utc created_time.
             get_column comments ''created_utc'' = Inr created_utc
           \<and> apply_col fromtimestamp created_utc = Inr created_time
           \<and> get_column cleaned ''created_time'' = Inr created_time
           \<and> get_column cleaned ''year'' = Inr (map year_cell created_time)
           \<and> length created_time = length created_utc
           \<and> (\<forall>i<length created_utc.
                 fromtimestamp (created_utc ! i) = Inr (created_time ! i)
               \<and> (\<exists>t. created_time ! i = Time t
                      \<and> map year_cell created_time ! i = Number (utc_year t)))
           \<and> (length created_utc = nrows comments \<longrightarrow>
                 length created_time = nrows cleaned
               \<and> length (map year_cell created_time) = nrows cleaned))"
proof -
  let ?d = "comments\<lparr>columns := filter (\<lambda>(n, _). n \<notin> set author_flair) (columns comments)\<rparr>"
  from assms(1) obtain comments' utc ct where c:
    "read_csv fs comment_path = Inr comments'"
    "get_column comments' ''created_utc'' = Inr utc"
    "apply_col fromtimestamp utc = Inr ct"
    "list_all ns_representable ct"
    "cleaned = set_column (set_column
        (comments'\<lparr>columns := filter (\<lambda>(n, _). n \<notin> set author_flair) (columns comments')\<rparr>)
        ''created_time'' ct) ''year'' (map year_cell ct)"
    by (rule clean_comments_Inr)
  with assms(2) have cl: "cleaned = set_column (set_column ?d ''created_time'' ct) ''year'' (map year_cell ct)"
    and same: "comments' = comments"
    by simp_all
  have rows: "nrows cleaned = nrows comments"
    by (simp add: cl nrows_set_column)
  have "filter (\<lambda>(n, _). n \<noteq> ''created_time'' \<and> n \<noteq> ''year'') (columns cleaned)
        = filter (\<lambda>(n, _). n \<noteq> ''created_time'' \<and> n \<noteq> ''year'') (columns ?d)"
    by (simp add: cl filter_set_column)
  also have "\<dots> = filter (\<lambda>(n, _). n \<notin> set author_flair \<and> n \<noteq> ''created_time'' \<and> n \<noteq> ''year'')
               (columns comments)"
    by (simp add: case_prod_unfold conj_commute conj_left_commute)
  finally have keep: "filter (\<lambda>(n, _). n \<noteq> ''created_time'' \<and> n \<noteq> ''year'') (columns cleaned)
           = filter (\<lambda>(n, _). n \<notin> set author_flair \<and> n \<noteq> ''created_time'' \<and> n \<noteq> ''year'')
               (columns comments)" .
  have new: "''created_time'' \<in> set (names cleaned)" "''year'' \<in> set (names cleaned)"
    by (simp_all add: cl names_set_column_other)
  have nd: "names ?d = filter (\<lambda>n. n \<notin> set author_flair) (names comments)"
    by (simp add: names_def names_filter)
  have "n \<in> set author_flair \<Longrightarrow> n \<notin> set (names cleaned)" for n
    unfolding cl names_set_column_other nd by (auto simp: author_flair_def)
  then have gone: "list_all (\<lambda>n. n \<notin> set (names cleaned)) author_flair"
    by (simp add: list_all_iff)
  have g1: "get_column cleaned ''created_time'' = Inr ct"
    by (simp add: cl get_set_other get_set_same)
  have g2: "get_column cleaned ''year'' = Inr (map year_cell ct)"
    by (simp add: cl get_set_same)
  from apply_col_nth[OF c(3)]
  have len: "length ct = length utc"
    and each: "\<forall>i<length utc. fromtimestamp (utc ! i) = Inr (ct ! i)"
    by simp_all
  have stamp: "\<exists>t. ct ! i = Time t \<and> map year_cell ct ! i = Number (utc_year t)"
    if "i < length utc" for i
  proof -
    from that len c(4) have "ns_representable (ct ! i)"
      by (simp add: list_all_length)
    then obtain t where "ct ! i = Time t" by (cases "ct ! i") simp_all
    with that len show ?thesis by simp
  qed
  have derived: "\<exists>created_utc created_time.
             get_column comments ''created_utc'' = Inr created_utc
           \<and> apply_col fromtimestamp created_utc = Inr created_time
           \<and> get_column cleaned ''created_time'' = Inr created_time
           \<and> get_column cleaned ''year'' = Inr (map year_cell created_time)
           \<and> length created_time = length created_utc
           \<and> (\<forall>i<length created_utc.
                 fromtimestamp (created_utc ! i) = Inr (created_time ! i)
               \<and> (\<exists>t. created_time ! i = Time t
                      \<and> map year_cell created_time ! i = Number (utc_year t)))
           \<and> (length created_utc = nrows comments \<longrightarrow>
                 length created_time = nrows cleaned
               \<and> length (map year_cell created_time) = nrows cleaned)"
    using c(2,3) same g1 g2 len each stamp rows
    by (intro exI[of _ utc] exI[of _ ct]) simp
  from rows keep new gone derived show ?thesis by blast
qed

theorem clean_preserves_other_columns_witness:
  "clean_comments example_files ''comments.csv'' = Inr example_cleaned
   \<and> read_csv example_files ''comments.csv'' = Inr example_comments
   \<and> nrows example_cleaned = nrows example_comments
   \<and> filter (\<lambda>(n, _). n \<noteq> ''created_time'' \<and> n \<noteq> ''year'') (columns example_cleaned)
       = filter (\<lambda>(n, _). n \<notin> set author_flair \<and> n \<noteq> ''created_time'' \<and> n \<noteq> ''year'')
           (columns example_comments)
   \<and> ''created_time'' \<in> set (names example_cleaned) \<and> ''year'' \<in> set (names example_cleaned)
   \<and> list_all (\<lambda>n. n \<notin> set (names example_cleaned)) author_flair
   \<and> get_column example_comments ''created_utc'' = Inr [Number 1700000000, Number 1600000000]
   \<and> length [Number 1700000000, Number 1600000000] = nrows example_comments
   \<and> apply_col fromtimestamp [Number 1700000000, Number 1600000000]
       = Inr [Time 1700000000, Time 1600000000]
   \<and> get_column example_cleaned ''created_time'' = Inr [Time 1700000000, Time 1600000000]
   \<and> get_column example_cleaned ''year'' = Inr [Number 2023, Number 2020]
   \<and> length [Number 2023, Number 2020] = nrows example_cleaned"
proof -
  note t = clean_preserves_other_columns[OF clean_example read_example_comments]
  have g: "get_column example_comments ''created_utc'' = Inr [Number 1700000000, Number 1600000000]"
    "length [Number 1700000000, Number 1600000000] = nrows example_comments"
    by (simp_all add: get_column_def example_comments_def)
  from t obtain created_utc created_time where d:
    "get_column example_comments ''created_utc'' = Inr created_utc"
    "apply_col fromtimestamp created_utc = Inr created_time"
    "get_column example_cleaned ''created_time'' = Inr created_time"
    "get_column example_cleaned ''year'' = Inr (map year_cell created_time)"
    by blast
  from d(1) g(1) have u: "created_utc = [Number 1700000000, Number 1600000000]" by simp
  have a: "apply_col fromtimestamp [Number 1700000000, Number 1600000000]
       = Inr [Time 1700000000, Time 1600000000]"
    by code_simp
  with d(2) u have ct: "created_time = [Time 1700000000, Time 1600000000]" by simp
  have y: "map year_cell [Time 1700000000, Time 1600000000] = [Number 2023, Number 2020]"
    by code_simp
  have first: "nrows example_cleaned = nrows example_comments
   \<and> filter (\<lambda>(n, _). n \<noteq> ''created_time'' \<and> n \<noteq> ''year'') (columns example_cleaned)
       = filter (\<lambda>(n, _). n \<notin> set author_flair \<and> n \<noteq> ''created_time'' \<and> n \<noteq> ''year'')
           (columns example_comments)
   \<and> ''created_time'' \<in> set (names example_cleaned) \<and> ''year'' \<in> set (names example_cleaned)
   \<and> list_all (\<lambda>n. n \<notin> set (names example_cleaned)) author_flair"
    using t by blast
  have n: "length [Number 2023, Number 2020] = nrows example_cleaned"
    by (simp add: example_cleaned_def)
  from first clean_example read_example_comments g a d(3,4) ct y n show ?thesis by simp
qed

text \<open>
  Claim C9 as stated fails on an input that has a column \<^verbatim>\<open>year\<close> already: it is no
  flair column, and its values are overwritten.
\<close>

theorem clean_overwrites_year_column:
  "read_csv dated_files ''comments.csv'' = Inr dated_comments
   \<and> clean_comments dated_files ''comments.csv'' = Inr dated_cleaned
   \<and> ''year'' \<notin> set author_flair
   \<and> get_column dated_comments ''year'' = Inr [Number 1999]
   \<and> get_column dated_cleaned ''year'' = Inr [Number 2023]"
  by code_simp

subsection \<open>Dropping the flair columns\<close>

text \<open>
  Claim C6. Dropping the flair columns (the author ones in \<^verbatim>\<open>clean_comments\<close>, the link
  ones in \<^verbatim>\<open>merge_submissions_comments\<close>) never fails, whichever of them the frame has,
  removes exactly the named columns, and dropping again changes nothing.
\<close>

theorem flair_drop_idempotent_tolerant:
  "\<exists>once. drop_columns Ignore author_flair df = Inr once
         \<and> drop_columns Ignore author_flair once = Inr once
         \<and> names once = filter (\<lambda>n. n \<notin> set author_flair) (names df)
   \<and> (\<exists>once'. drop_columns Ignore link_flair df = Inr once'
         \<and> drop_columns Ignore link_flair once' = Inr once'
         \<and> names once' = filter (\<lambda>n. n \<notin> set link_flair) (names df))"
  using drop_ignore_idem[of author_flair df] drop_ignore_idem[of link_flair df] by simp

subsection \<open>The database\<close>

lemma count_distinct_value:
  assumes "db tbl = Some t" and "get_column t column = Inr vs"
  shows "count_distinct db column tbl = Inr (int (card (set vs - {Null})))"
proof -
  from assms(2) have m: "map_of (columns t) column = Some vs"
    by (simp add: get_column_def split: option.splits)
  have "set (filter (\<lambda>v. v \<noteq> Null) vs) = set vs - {Null}" by auto
  then have "length (remdups (filter (\<lambda>v. v \<noteq> Null) vs)) = card (set vs - {Null})"
    by (simp add: length_remdups_card_conv)
  with assms(1) m show ?thesis by (simp add: count_distinct_def)
qed

lemma card_values_le: "card (set vs - {Null}) \<le> length vs"
proof -
  have "card (set vs - {Null}) \<le> card (set vs)"
    by (rule card_mono) auto
  also have "\<dots> \<le> length vs" by (rule card_length)
  finally show ?thesis .
qed

lemma load_to_sqlite_result:
  assumes "read_csv fs comment_path = Inr df"
  shows "load_to_sqlite fs comment_path st db_path
           = Inr (st(db_path \<mapsto> (connect st db_path)(''comment_table'' \<mapsto> df)), db_path)"
  using assms by (simp add: load_to_sqlite_def to_sql_def Let_def split: option.splits)

lemma read_repeated: "read_csv repeated_files ''comments.csv'' = Inr repeated_comments"
  by (simp add: read_csv_def repeated_files_def)

text \<open>
  Claim C7. After a load, on a comments table that has the columns \<^verbatim>\<open>parent_id\<close> and
  \<^verbatim>\<open>comment_id\<close>, \<^verbatim>\<open>count_posts_comments\<close> returns a pair of integers, neither negative:
  the number of different values of \<^verbatim>\<open>parent_id\<close> and of \<^verbatim>\<open>comment_id\<close> (NULL is no
  value to \<^verbatim>\<open>COUNT(DISTINCT ...)\<close>), the second at most the number of rows.
\<close>

theorem count_posts_comments_counts:
  assumes "load_to_sqlite fs comment_path st db_path = Inr (st', conn)"
    and "read_csv fs comment_path = Inr comments"
    and "get_column comments ''parent_id'' = Inr parent_id"
    and "get_column comments ''comment_id'' = Inr comment_id"
    and "length comment_id = nrows comments"
  shows "\<exists>post_count comment_count.
           count_posts_comments st' conn = Inr (post_count, comment_count)
         \<and> 0 \<le> post_count \<and> 0 \<le> comment_count
         \<and> post_count = int (card (set parent_id - {Null}))
         \<and> comment_count = int (card (set comment_id - {Null}))
         \<and> comment_count \<le> int (nrows comments)"
proof -
  from assms(1) load_to_sqlite_result[OF assms(2), of st db_path]
  have "connect st' conn ''comment_table'' = Some comments"
    by (auto simp: connect_def)
  then have
    "count_distinct (connect st' conn) ''parent_id'' ''comment_table''
       = Inr (int (card (set parent_id - {Null})))"
    "count_distinct (connect st' conn) ''comment_id'' ''comment_table''
       = Inr (int (card (set comment_id - {Null})))"
    using assms(3,4) by (simp_all add: count_distinct_value)
  then have "count_posts_comments st' conn
       = Inr (int (card (set parent_id - {Null})), int (card (set comment_id - {Null})))"
    by (simp add: count_posts_comments_def)
  moreover have "int (card (set comment_id - {Null})) \<le> int (nrows comments)"
    using card_values_le[of comment_id] assms(5) by simp
  ultimately show ?thesis by simp
qed

theorem count_posts_comments_counts_witness:
  "read_csv repeated_files ''comments.csv'' = Inr repeated_comments
   \<and> nrows repeated_comments = 4
   \<and> (\<exists>st'. load_to_sqlite repeated_files ''comments.csv'' old_store ''project_test.db''
               = Inr (st', ''project_test.db'')
            \<and> count_posts_comments st' ''project_test.db'' = Inr (2, 3))"
proof -
  have g: "get_column repeated_comments ''parent_id'' = Inr [Str ''t3_s1'', Str ''t3_s1'', Null, Str ''t1_c1'']"
    "get_column repeated_comments ''comment_id'' = Inr [Str ''c1'', Str ''c2'', Str ''c3'', Null]"
    by (simp_all add: get_column_def repeated_comments_def)
  have n: "length [Str ''c1'', Str ''c2'', Str ''c3'', Null] = nrows repeated_comments"
    by (simp add: repeated_comments_def)
  have l: "load_to_sqlite repeated_files ''comments.csv'' old_store ''project_test.db''
     = Inr (old_store(''project_test.db'' \<mapsto>
              (connect old_store ''project_test.db'')(''comment_table'' \<mapsto> repeated_comments)),
            ''project_test.db'')"
    by (rule load_to_sqlite_result[OF read_repeated])
  have c1: "card (set [Str ''t3_s1'', Str ''t3_s1'', Null, Str ''t1_c1''] - {Null}) = 2"
    by (simp add: insert_Diff_if)
  have c2: "card (set [Str ''c1'', Str ''c2'', Str ''c3'', Null] - {Null}) = 3"
    by (simp add: insert_Diff_if)
  from count_posts_comments_counts[OF l read_repeated g n] c1 c2
  have "count_posts_comments (old_store(''project_test.db'' \<mapsto>
              (connect old_store ''project_test.db'')(''comment_table'' \<mapsto> repeated_comments)))
          ''project_test.db'' = Inr (2, 3)"
    by auto
  with l read_repeated show ?thesis by (auto simp: repeated_comments_def)
qed

text \<open>
  Claim C8. When the source file reads as a frame, \<^verbatim>\<open>load_to_sqlite\<close> returns the
  connection, and the table \<^verbatim>\<open>comment_table\<close> of the database is that frame, rows and
  columns as read, whatever table of that name was there before; the other tables and
  the other databases stay as they were.
\<close>

theorem load_replaces_comment_table:
  assumes "read_csv fs comment_path = Inr df"
  shows "\<exists>st' db'.
           load_to_sqlite fs comment_path st db_path = Inr (st', db_path)
         \<and> st' db_path = Some db'
         \<and> db' ''comment_table'' = Some df
         \<and> (\<forall>name. name \<noteq> ''comment_table'' \<longrightarrow> db' name = connect st db_path name)
         \<and> (\<forall>path. path \<noteq> db_path \<longrightarrow> st' path = st path)"
  using load_to_sqlite_result[OF assms, of st db_path] by simp

theorem load_replaces_comment_table_witness:
  "read_csv repeated_files ''comments.csv'' = Inr repeated_comments
   \<and> connect old_store ''project_test.db'' ''comment_table''
       = Some \<lparr>nrows = 1, columns = [(''comment_id'', [Str ''old'']), (''score'', [Number 7])]\<rparr>
   \<and> (\<exists>st' db'.
           load_to_sqlite repeated_files ''comments.csv'' old_store ''project_test.db''
             = Inr (st', ''project_test.db'')
         \<and> st' ''project_test.db'' = Some db'
         \<and> db' ''comment_table'' = Some repeated_comments
         \<and> db' ''other_table'' = Some \<lparr>nrows = 0, columns = [(''k'', [])]\<rparr>)"
proof -
  have o: "connect old_store ''project_test.db'' ''comment_table''
       = Some \<lparr>nrows = 1, columns = [(''comment_id'', [Str ''old'']), (''score'', [Number 7])]\<rparr>"
    "connect old_store ''project_test.db'' ''other_table'' = Some \<lparr>nrows = 0, columns = [(''k'', [])]\<rparr>"
    by (simp_all add: connect_def old_store_def)
  from load_replaces_comment_table[OF read_repeated, of old_store "''project_test.db''"]
  obtain st' db' where l:
    "load_to_sqlite repeated_files ''comments.csv'' old_store ''project_test.db''
             = Inr (st', ''project_test.db'')"
    "st' ''project_test.db'' = Some db'"
    "db' ''comment_table'' = Some repeated_comments"
    "\<forall>name. name \<noteq> ''comment_table'' \<longrightarrow> db' name = connect old_store ''project_test.db'' name"
    by blast
  from l(4) o(2) have "db' ''other_table'' = Some \<lparr>nrows = 0, columns = [(''k'', [])]\<rparr>"
    by simp
  with l o read_repeated show ?thesis by blast
qed

subsection \<open>Average and currency\<close>

lemma overflow_bound_code [code]: "overflow_bound = (2 ^ 32) ^ 32"
  by (simp only: overflow_bound_def power_mult [symmetric]) simp

lemma round_half_even_near: "\<bar>of_int (round_half_even x) - x\<bar> \<le> 1 / 2"
proof -
  have a: "of_int \<lfloor>x\<rfloor> \<le> x" and b: "x < of_int \<lfloor>x\<rfloor> + 1" by linarith+
  consider "x - of_int \<lfloor>x\<rfloor> < 1 / 2" | "1 / 2 < x - of_int \<lfloor>x\<rfloor>" | "x - of_int \<lfloor>x\<rfloor> = 1 / 2"
    by linarith
  then have "rat_of_int (round_half_even x) = of_int \<lfloor>x\<rfloor> \<and> x - of_int \<lfloor>x\<rfloor> \<le> 1 / 2
           \<or> rat_of_int (round_half_even x) = of_int \<lfloor>x\<rfloor> + 1 \<and> 1 / 2 \<le> x - of_int \<lfloor>x\<rfloor>"
    by cases (simp_all add: round_half_even_def Let_def)
  with a b show ?thesis by linarith
qed

lemma round_half_even_nonneg: "0 \<le> x \<Longrightarrow> 0 \<le> round_half_even x"
proof -
  assume "0 \<le> x"
  then have "0 \<le> \<lfloor>x\<rfloor>" by simp
  then show ?thesis by (auto simp: round_half_even_def Let_def)
qed

lemma format_2f_shape:
  "\<exists>whole d1 d2. d1 < 10 \<and> d2 < 10
     \<and> format_2f amount
         = (if amount < 0 then ''-'' else []) @ decimal whole @ ''.'' @ [digit_char d1, digit_char d2]
     \<and> \<bar>of_nat (100 * whole + 10 * d1 + d2) - \<bar>amount\<bar> * 100\<bar> \<le> 1 / 2"
proof -
  define c where "c = nat (round_half_even (\<bar>amount\<bar> * 100))"
  have nn: "0 \<le> round_half_even (\<bar>amount\<bar> * 100)"
    by (rule round_half_even_nonneg) simp
  have "c mod 100 mod 10 = c mod 10"
    by (simp add: mod_mod_cancel)
  moreover have "c mod 100 = 10 * (c mod 100 div 10) + c mod 100 mod 10"
    by simp
  moreover have "c = 100 * (c div 100) + c mod 100"
    by simp
  ultimately have "100 * (c div 100) + 10 * (c mod 100 div 10) + c mod 10 = c"
    by linarith
  moreover have "(of_nat c :: rat) = of_int (round_half_even (\<bar>amount\<bar> * 100))"
    using nn by (simp add: c_def)
  ultimately have "\<bar>of_nat (100 * (c div 100) + 10 * (c mod 100 div 10) + c mod 10) - \<bar>amount\<bar> * 100\<bar> \<le> 1 / 2"
    using round_half_even_near[of "\<bar>amount\<bar> * 100"] by simp
  moreover have "c mod 100 div 10 < 10" "c mod 10 < 10"
    by (simp_all add: less_mult_imp_div_less)
  moreover have "format_2f amount
         = (if amount < 0 then ''-'' else []) @ decimal (c div 100) @ ''.''
           @ [digit_char (c mod 100 div 10), digit_char (c mod 10)]"
    by (simp add: format_2f_def c_def Let_def)
  ultimately show ?thesis by blast
qed

lemma pow2_pos: "0 < pow2 e"
  by (simp add: pow2_def)

text \<open>A finite result of the rounding lies within half a unit in the last place.\<close>

lemma round_double_near:
  assumes "round_double q = Finite v"
  shows "\<bar>v - q\<bar> \<le> pow2 (max (floor_log2 \<bar>q\<bar> - 52) (- 1074)) / 2"
proof (cases "q = 0")
  case True
  with assms show ?thesis using pow2_pos[of "max (floor_log2 \<bar>q\<bar> - 52) (- 1074)"]
    by (simp add: round_double_def)
next
  case False
  define p where "p = max (floor_log2 \<bar>q\<bar> - 52) (- 1074)"
  define m where "m = round_half_even (\<bar>q\<bar> / pow2 p)"
  have pos: "0 < pow2 p" by (rule pow2_pos)
  have "\<bar>of_int m - \<bar>q\<bar> / pow2 p\<bar> \<le> 1 / 2"
    unfolding m_def by (rule round_half_even_near)
  then have "\<bar>of_int m - \<bar>q\<bar> / pow2 p\<bar> * pow2 p \<le> 1 / 2 * pow2 p"
    using pos by (intro mult_right_mono) simp_all
  moreover have "\<bar>of_int m - \<bar>q\<bar> / pow2 p\<bar> * pow2 p = \<bar>of_int m * pow2 p - \<bar>q\<bar>\<bar>"
  proof -
    have "\<bar>of_int m - \<bar>q\<bar> / pow2 p\<bar> * pow2 p = \<bar>(of_int m - \<bar>q\<bar> / pow2 p) * pow2 p\<bar>"
      using pos by (simp add: abs_mult)
    also have "(of_int m - \<bar>q\<bar> / pow2 p) * pow2 p = of_int m * pow2 p - \<bar>q\<bar>"
      using pos by (simp add: left_diff_distrib)
    finally show ?thesis .
  qed
  ultimately have near: "\<bar>of_int m * pow2 p - \<bar>q\<bar>\<bar> \<le> pow2 p / 2" by simp
  from assms False have "v = (if 0 < q then of_int m * pow2 p else - (of_int m * pow2 p))
      \<or> (v = 0 \<and> of_int m * pow2 p = 0)"
    by (auto simp: round_double_def Let_def p_def m_def split: if_splits)
  with near False show ?thesis
    unfolding p_def[symmetric] by (auto simp: abs_if split: if_splits)
qed

lemma py_sum_ints: "py_sum (map PyInt ints) (PyInt k) = Inr (PyInt (k + sum_list ints))"
  by (induction ints arbitrary: k) (simp_all add: add.assoc)

text \<open>
  Claim C10, as amended. \<^verbatim>\<open>calculate_average\<close> returns the int 0 for the empty list; for a
  list that is not empty it returns what \<^verbatim>\<open>sum(numbers) / len(numbers)\<close> gives, errors
  included; for ints that is the float nearest the exact quotient, or an OverflowError when
  the quotient is too large for a float. \<^verbatim>\<open>format_currency\<close> writes the symbol, which
  is \<^verbatim>\<open>$\<close> for every currency code other than USD, EUR and GBP, and then the amount as a
  float: a finite float as its sign, its whole part, a point and exactly two digits,
  within half a hundredth of its value, and \<^verbatim>\<open>-0.0\<close> as \<^verbatim>\<open>-0.00\<close>; an int too large
  for a float is an OverflowError.
\<close>

theorem average_and_currency:
  "calculate_average [] = Inr (PyInt 0)
   \<and> (numbers \<noteq> [] \<longrightarrow>
         calculate_average numbers
           = (case py_sum numbers (PyInt 0) of
                Inl e \<Rightarrow> Inl e
              | Inr summed \<Rightarrow> py_truediv summed (length numbers)))
   \<and> (ints \<noteq> [] \<longrightarrow>
         calculate_average (map PyInt ints)
           = (case round_double (of_int (sum_list ints) / of_nat (length ints)) of
                PosInf \<Rightarrow> Inl OverflowError
              | NegInf \<Rightarrow> Inl OverflowError
              | f \<Rightarrow> Inr (PyFloat f)))
   \<and> (\<exists>symbol.
          (currency \<noteq> ''USD'' \<and> currency \<noteq> ''EUR'' \<and> currency \<noteq> ''GBP'' \<longrightarrow> symbol = ''$'')
        \<and> format_currency amount currency
            = (case to_float amount of
                 Inl e \<Rightarrow> Inl e
               | Inr x \<Rightarrow> Inr (symbol @ format_float x)))
   \<and> (\<exists>whole d1 d2. d1 < 10 \<and> d2 < 10
        \<and> format_float (Finite q)
            = (if q < 0 then ''-'' else []) @ decimal whole @ ''.'' @ [digit_char d1, digit_char d2]
        \<and> \<bar>of_nat (100 * whole + 10 * d1 + d2) - \<bar>q\<bar> * 100\<bar> \<le> 1 / 2)
   \<and> format_float NegZero = ''-0.00''"
proof -
  have empty: "calculate_average [] = Inr (PyInt 0)"
    by (simp add: calculate_average_def)
  have full: "numbers \<noteq> [] \<longrightarrow>
         calculate_average numbers
           = (case py_sum numbers (PyInt 0) of
                Inl e \<Rightarrow> Inl e
              | Inr summed \<Rightarrow> py_truediv summed (length numbers))"
    by (simp add: calculate_average_def)
  have whole: "ints \<noteq> [] \<longrightarrow>
         calculate_average (map PyInt ints)
           = (case round_double (of_int (sum_list ints) / of_nat (length ints)) of
                PosInf \<Rightarrow> Inl OverflowError
              | NegInf \<Rightarrow> Inl OverflowError
              | f \<Rightarrow> Inr (PyFloat f))"
    using py_sum_ints[of ints 0] by (simp add: calculate_average_def)
  let ?symbol = "case map_of symbols currency of None \<Rightarrow> ''$'' | Some s \<Rightarrow> s"
  have "currency \<noteq> ''USD'' \<and> currency \<noteq> ''EUR'' \<and> currency \<noteq> ''GBP'' \<longrightarrow> ?symbol = ''$''"
    by (simp add: symbols_def)
  moreover have "format_currency amount currency
            = (case to_float amount of
                 Inl e \<Rightarrow> Inl e
               | Inr x \<Rightarrow> Inr (?symbol @ format_float x))"
    by (simp add: format_currency_def)
  ultimately have sym: "\<exists>symbol.
          (currency \<noteq> ''USD'' \<and> currency \<noteq> ''EUR'' \<and> currency \<noteq> ''GBP'' \<longrightarrow> symbol = ''$'')
        \<and> format_currency amount currency
            = (case to_float amount of
                 Inl e \<Rightarrow> Inl e
               | Inr x \<Rightarrow> Inr (symbol @ format_float x))"
    by blast
  have two: "\<exists>whole d1 d2. d1 < 10 \<and> d2 < 10
        \<and> format_float (Finite q)
            = (if q < 0 then ''-'' else []) @ decimal whole @ ''.'' @ [digit_char d1, digit_char d2]
        \<and> \<bar>of_nat (100 * whole + 10 * d1 + d2) - \<bar>q\<bar> * 100\<bar> \<le> 1 / 2"
    using format_2f_shape[of q] by simp
  have "format_float NegZero = ''-0.00''" by simp
  with empty full whole sym two show ?thesis by blast
qed

lemma round_double_example: "round_double (7 / 3) = Finite (5254199565265579 / 2251799813685248)"
  by code_simp

lemma int_to_float_example: "int_to_float (2 ^ 53 + 1) = Inr (Finite 9007199254740992)"
  by code_simp

lemma format_2f_example:
  "format_2f (2469 / 2) = ''1234.50'' \<and> format_2f 9007199254740992 = ''9007199254740992.00''"
  by (simp add: format_2f_def round_half_even_def Let_def digit_char_def)

lemma format_2f_tie_to_even: "format_2f (1 / 8) = ''0.12'' \<and> format_2f (3 / 8) = ''0.38''"
  by code_simp

lemma format_2f_negative:
  "format_2f (- (3 / 8)) = ''-0.38'' \<and> format_2f (- (1 / 1000)) = ''-0.00''"
  by code_simp

lemma calculate_average_floats:
  "calculate_average [PyFloat (Finite (1 / 2)), PyInt 1, PyFloat NegZero]
     = Inr (PyFloat (Finite (1 / 2)))"
  by code_simp

theorem average_and_currency_witness:
  "[PyInt 1, PyInt 2, PyInt 4] \<noteq> [] \<and> [1, 2, 4] \<noteq> ([] :: int list)
   \<and> calculate_average [PyInt 1, PyInt 2, PyInt 4]
       = Inr (PyFloat (Finite (5254199565265579 / 2251799813685248)))
   \<and> ''JPY'' \<noteq> ''USD'' \<and> ''JPY'' \<noteq> ''EUR'' \<and> ''JPY'' \<noteq> ''GBP''
   \<and> format_currency (PyFloat (Finite (2469 / 2))) ''JPY'' = Inr ''$1234.50''
   \<and> format_currency (PyInt (2 ^ 53 + 1)) ''USD'' = Inr ''$9007199254740992.00''"
proof -
  note t = average_and_currency[of "[PyInt 1, PyInt 2, PyInt 4]" "[1, 2, 4]" "''JPY''"
      "PyFloat (Finite (2469 / 2))" "2469 / 2"]
  from t have "calculate_average (map PyInt [1, 2, 4])
           = (case round_double (of_int (sum_list [1, 2, 4]) / of_nat (length [1, 2, 4 :: int])) of
                PosInf \<Rightarrow> Inl OverflowError
              | NegInf \<Rightarrow> Inl OverflowError
              | f \<Rightarrow> Inr (PyFloat f))"
    by blast
  then have a: "calculate_average [PyInt 1, PyInt 2, PyInt 4]
       = Inr (PyFloat (Finite (5254199565265579 / 2251799813685248)))"
    by (simp add: round_double_example)
  from t obtain symbol where s:
    "''JPY'' \<noteq> ''USD'' \<and> ''JPY'' \<noteq> ''EUR'' \<and> ''JPY'' \<noteq> ''GBP'' \<longrightarrow> symbol = ''$''"
    "format_currency (PyFloat (Finite (2469 / 2))) ''JPY''
       = (case to_float (PyFloat (Finite (2469 / 2))) of
            Inl e \<Rightarrow> Inl e
          | Inr x \<Rightarrow> Inr (symbol @ format_float x))"
    by blast
  from s(1) have "symbol = ''$''" by simp
  with s(2) have f: "format_currency (PyFloat (Finite (2469 / 2))) ''JPY'' = Inr ''$1234.50''"
    by (simp add: format_2f_example)
  have g: "format_currency (PyInt (2 ^ 53 + 1)) ''USD'' = Inr ''$9007199254740992.00''"
    using int_to_float_example
    by (simp add: format_currency_def symbols_def format_2f_example)
  from a f g show ?thesis by simp
qed

text \<open>An int of \<open>2 ^ 1024\<close> is too large for a float: both functions raise OverflowError.\<close>

lemma bits_power2: "bits (2 ^ k) = int k + 1"
proof (induction k)
  case 0
  then show ?case by (simp add: bits.simps)
next
  case (Suc k)
  have "bits (2 ^ Suc k) = 1 + bits (2 ^ Suc k div 2)"
    by (subst bits.simps) simp
  with Suc show ?case by simp
qed

lemma round_double_overflowI:
  assumes "0 < q" and "floor_log2 \<bar>q\<bar> = e"
    and "of_int (round_half_even (\<bar>q\<bar> / pow2 (max (e - 52) (- 1074)))) * pow2 (max (e - 52) (- 1074)) = v"
    and "overflow_bound \<le> v"
  shows "round_double q = PosInf"
  using assms by (simp add: round_double_def Let_def)

lemma round_double_2_1024: "round_double (2 ^ 1024) = PosInf"
proof (rule round_double_overflowI[where e = 1024 and v = "2 ^ 1024"])
  show "(0::rat) < 2 ^ 1024" by (rule zero_less_power) simp
  have a: "\<bar>(2::rat) ^ 1024\<bar> = 2 ^ 1024" by (rule abs_of_pos) (rule zero_less_power, simp)
  have fl: "\<lfloor>(2::rat) ^ 1024\<rfloor> = 2 ^ 1024"
    by (metis floor_of_int of_int_numeral of_int_power)
  have one: "(1::rat) \<le> 2 ^ 1024" by (rule one_le_power) simp
  show "floor_log2 \<bar>(2::rat) ^ 1024\<bar> = 1024"
    using one by (simp only: a floor_log2_def fl bits_power2 if_True)
  have m: "max (1024 - 52) (- 1074) = (972::int)" by simp
  have p: "pow2 972 = 2 ^ 972" by (simp add: pow2_def)
  have q: "(2::rat) ^ 1024 / 2 ^ 972 = 2 ^ 52"
    by (simp only: power_diff [symmetric, of 2 972 1024]) simp
  have f52: "\<lfloor>(2::rat) ^ 52\<rfloor> = 2 ^ 52"
    by (metis floor_of_int of_int_numeral of_int_power)
  have r: "round_half_even ((2::rat) ^ 52) = 2 ^ 52"
    by (simp only: round_half_even_def Let_def f52) simp
  have v: "rat_of_int (2 ^ 52) * 2 ^ 972 = 2 ^ 1024"
    by (simp only: of_int_power of_int_numeral power_add [symmetric]) simp
  show "rat_of_int (round_half_even (\<bar>2 ^ 1024\<bar> / pow2 (max (1024 - 52) (- 1074))))
          * pow2 (max (1024 - 52) (- 1074)) = 2 ^ 1024"
    by (simp only: a m p q r v)
  show "overflow_bound \<le> 2 ^ 1024" by (simp only: overflow_bound_def order_refl)
qed

lemma huge_ints_overflow:
  "calculate_average [PyInt (2 ^ 1024)] = Inl OverflowError
   \<and> format_currency (PyInt (2 ^ 1024)) ''USD'' = Inl OverflowError"
proof -
  have "round_double (rat_of_int (2 ^ 1024)) = PosInf"
    using round_double_2_1024 by (simp only: of_int_power of_int_numeral)
  then have i: "int_to_float (2 ^ 1024) = Inl OverflowError"
    and d: "round_double (rat_of_int (2 ^ 1024) / rat_of_nat (Suc 0)) = PosInf"
    by (simp_all only: int_to_float_def pyfloat.case of_nat_Suc of_nat_0 add_0_right div_by_1)
  from i have "format_currency (PyInt (2 ^ 1024)) ''USD'' = Inl OverflowError"
    by (simp only: format_currency_def Let_def to_float.simps sum.case)
  moreover have s: "py_sum [PyInt (2 ^ 1024)] (PyInt 0) = Inr (PyInt (2 ^ 1024))"
    by (simp only: py_sum.simps py_add.simps sum.case add_0)
  have t: "py_truediv (PyInt (2 ^ 1024)) (Suc 0) = Inl OverflowError"
    using d by (simp only: py_truediv.simps nat.simps if_False pyfloat.case)
  have "calculate_average [PyInt (2 ^ 1024)] = Inl OverflowError"
    using s t by (simp add: calculate_average_def del: py_sum.simps py_truediv.simps)
  ultimately show ?thesis by simp
qed

text \<open>
  Claim C10 as stated fails on an amount that is infinite or not a number: the result
  has no decimal places.
\<close>

theorem currency_of_infinity_has_no_decimals:
  "format_currency (PyFloat PosInf) ''USD'' = Inr ''$inf''
   \<and> format_currency (PyFloat NegInf) ''USD'' = Inr ''$-inf''
   \<and> format_currency (PyFloat NaN) ''USD'' = Inr ''$nan''"
  by (simp add: format_currency_def symbols_def)

end
